theory Spec2Isabelle
  imports Complex_Main "HOL-Library.Sublist"
begin

section \<open>JavaScript strings and numbers\<close>

text \<open>
  A JavaScript string is a sequence of UTF-16 code units. Code units are modelled as
  natural numbers, so that the result of percent-decoding a multi-byte escape sequence is
  representable; \<open>js\<close> turns an ASCII literal into its code units.
\<close>

type_synonym jsstring = "nat list"

definition js :: "string \<Rightarrow> jsstring" where
  "js s = map of_char s"

text \<open>
  \<open>Number.prototype.toString\<close> on a non-negative integer below \<open>10^21\<close>: its decimal digits.
\<close>

fun digits :: "nat \<Rightarrow> jsstring" where
  "digits n = (if n < 10 then [48 + n] else digits (n div 10) @ [48 + n mod 10])"

declare digits.simps [simp del]

text \<open>
  \<open>(b / d).toFixed(2)\<close> for a non-negative integer \<open>b\<close> and a power of two \<open>d\<close>. The
  quotient of an integer-valued double by a power of two is exact, and \<open>toFixed(2)\<close> picks the
  integer \<open>n\<close> for which \<open>n / 100\<close> is nearest to the exact value, the larger one on a tie:
  \<open>n = floor (100 * b / d + 1 / 2)\<close>, computed here in integer arithmetic
  (lemma \<open>hundredths_floor\<close> below). The result is the decimal digits of \<open>n\<close> with a point
  before the last two.
\<close>

definition hundredths :: "nat \<Rightarrow> nat \<Rightarrow> nat" where
  "hundredths b d = (200 * b + d) div (2 * d)"

definition fixed2 :: "nat \<Rightarrow> jsstring" where
  "fixed2 n = digits (n div 100) @ js ''.'' @ [48 + (n div 10) mod 10, 48 + n mod 10]"

definition toFixed2 :: "nat \<Rightarrow> nat \<Rightarrow> jsstring" where
  "toFixed2 b d = fixed2 (hundredths b d)"

text \<open>\<open>String.prototype.padStart(3, '0')\<close>.\<close>

definition padStart3 :: "jsstring \<Rightarrow> jsstring" where
  "padStart3 s = replicate (3 - length s) 48 @ s"

text \<open>\<open>Number(s)\<close> on a string of decimal digits: the value the digits denote.\<close>

definition number_of :: "jsstring \<Rightarrow> nat" where
  "number_of s = foldl (\<lambda>a c. 10 * a + (c - 48)) 0 s"

definition slash :: nat where
  "slash = 47"

definition percent :: nat where
  "percent = 37"

definition dot :: nat where
  "dot = 46"

definition startsWith :: "jsstring \<Rightarrow> jsstring \<Rightarrow> bool" where
  "startsWith s p = prefix p s"

text \<open>
  \<open>s.replace(pat, '')\<close> with a string pattern: the first occurrence of \<open>pat\<close> in \<open>s\<close> is
  removed, wherever it is; the empty pattern occurs at index 0 and removing it changes
  nothing.
\<close>

fun remove_first :: "jsstring \<Rightarrow> jsstring \<Rightarrow> jsstring" where
  "remove_first pat [] = []"
| "remove_first pat (c # cs) =
     (if prefix pat (c # cs) then drop (length pat) (c # cs) else c # remove_first pat cs)"

text \<open>\<open>s.replace(/\/{2,}/g, '/')\<close>: every maximal run of two or more slashes becomes one.\<close>

fun collapse_slashes :: "jsstring \<Rightarrow> jsstring" where
  "collapse_slashes (a # b # cs) =
     (if a = slash \<and> b = slash then collapse_slashes (b # cs)
      else a # collapse_slashes (b # cs))"
| "collapse_slashes cs = cs"

text \<open>\<open>s.replace(/^\//g, '')\<close>: one slash at the start of the string is removed.\<close>

definition strip_leading_slash :: "jsstring \<Rightarrow> jsstring" where
  "strip_leading_slash s = (case s of [] \<Rightarrow> [] | c # cs \<Rightarrow> if c = slash then cs else s)"

text \<open>\<open>s.replace(/\/$/g, '')\<close>: one slash at the end of the string is removed.\<close>

definition strip_trailing_slash :: "jsstring \<Rightarrow> jsstring" where
  "strip_trailing_slash s = (if s \<noteq> [] \<and> last s = slash then butlast s else s)"

text \<open>
  The chain \<open>.replace(/\/{2,}/g, '/').replace(/^\//g, '').replace(/\/$/g, '')\<close>, which the
  source applies to \<open>config.baseurl\<close> and to the request URL.
\<close>

definition trim_slashes :: "jsstring \<Rightarrow> jsstring" where
  "trim_slashes s = strip_trailing_slash (strip_leading_slash (collapse_slashes s))"

text \<open>\<open>s.split('/')\<close> and \<open>segments.join('/')\<close>.\<close>

fun split_slash :: "jsstring \<Rightarrow> jsstring list" where
  "split_slash [] = [[]]"
| "split_slash (c # cs) =
     (if c = slash then [] # split_slash cs
      else (case split_slash cs of [] \<Rightarrow> [[c]] | seg # segs \<Rightarrow> (c # seg) # segs))"

fun join_slash :: "jsstring list \<Rightarrow> jsstring" where
  "join_slash [] = []"
| "join_slash [seg] = seg"
| "join_slash (seg # segs) = seg @ slash # join_slash segs"

text \<open>
  \<open>String.prototype.toLowerCase\<close>. On a string of ASCII code units the letters A to Z are
  mapped to a to z and every other code unit is kept. On a string with a code unit outside
  ASCII the result is given by the case mapping of the runtime's Unicode tables, which is
  the parameter \<open>unicode\<close>.
\<close>

definition toLowerCase :: "(jsstring \<Rightarrow> jsstring) \<Rightarrow> jsstring \<Rightarrow> jsstring" where
  "toLowerCase unicode s =
     (if list_all (\<lambda>c. c < 128) s then map (\<lambda>c. if 65 \<le> c \<and> c \<le> 90 then c + 32 else c) s
      else unicode s)"

subsection \<open>decodeURIComponent\<close>

text \<open>
  The runtime's \<open>decodeURIComponent\<close> (ECMAScript, abstract operation Decode with an empty
  set of preserved escapes). \<open>None\<close> is the thrown \<open>URIError\<close>. A percent sign must be
  followed by two hexadecimal digits; an escaped octet below 128 is that code unit; an
  escaped octet with two, three or four leading one bits starts a UTF-8 sequence whose
  continuation octets must be escaped as well, and the sequence must be the valid UTF-8
  encoding of a code point, which is appended in UTF-16.
\<close>

definition hexval :: "nat \<Rightarrow> nat option" where
  "hexval c =
     (if 48 \<le> c \<and> c \<le> 57 then Some (c - 48)
      else if 65 \<le> c \<and> c \<le> 70 then Some (c - 55)
      else if 97 \<le> c \<and> c \<le> 102 then Some (c - 87)
      else None)"

datatype token = Lit nat | Oct nat

fun tokens :: "jsstring \<Rightarrow> token list option" where
  "tokens [] = Some []"
| "tokens (c # cs) =
     (if c = percent then
        (case cs of
           h1 # h2 # rest \<Rightarrow>
             (case (hexval h1, hexval h2) of
                (Some a, Some b) \<Rightarrow> map_option (Cons (Oct (16 * a + b))) (tokens rest)
              | _ \<Rightarrow> None)
         | _ \<Rightarrow> None)
      else map_option (Cons (Lit c)) (tokens cs))"

definition cont :: "nat \<Rightarrow> bool" where
  "cont b = (128 \<le> b \<and> b < 192)"

definition utf16 :: "nat \<Rightarrow> jsstring" where
  "utf16 v = (if v < 65536 then [v]
              else [55296 + (v - 65536) div 1024, 56320 + (v - 65536) mod 1024])"

text \<open>
  \<open>Pending need acc lo\<close>: inside a UTF-8 sequence that still needs \<open>need\<close> continuation
  octets, with the bits \<open>acc\<close> read so far; \<open>lo\<close> is the least code point a sequence of this
  length may encode (shorter encodings of smaller code points are invalid).
\<close>

datatype pending = Idle | Pending nat nat nat

fun utf8 :: "pending \<Rightarrow> token list \<Rightarrow> jsstring option" where
  "utf8 Idle [] = Some []"
| "utf8 (Pending need acc lo) [] = None"
| "utf8 Idle (Lit c # ts) = map_option (Cons c) (utf8 Idle ts)"
| "utf8 (Pending need acc lo) (Lit c # ts) = None"
| "utf8 Idle (Oct b # ts) =
     (if b < 128 then map_option (Cons b) (utf8 Idle ts)
      else if 192 \<le> b \<and> b < 224 then utf8 (Pending 1 (b - 192) 128) ts
      else if 224 \<le> b \<and> b < 240 then utf8 (Pending 2 (b - 224) 2048) ts
      else if 240 \<le> b \<and> b < 248 then utf8 (Pending 3 (b - 240) 65536) ts
      else None)"
| "utf8 (Pending need acc lo) (Oct b # ts) =
     (if \<not> cont b then None
      else let v = acc * 64 + (b - 128)
           in if 1 < need then utf8 (Pending (need - 1) v lo) ts
              else if lo \<le> v \<and> v < 1114112 \<and> \<not> (55296 \<le> v \<and> v < 57344)
                   then map_option ((@) (utf16 v)) (utf8 Idle ts)
                   else None)"

definition decodeURIComponent :: "jsstring \<Rightarrow> jsstring option" where
  "decodeURIComponent s = (case tokens s of None \<Rightarrow> None | Some ts \<Rightarrow> utf8 Idle ts)"

section \<open>JavaScript values and objects\<close>

text \<open>
  The values a configuration can hold. A number is a double: a rational, or one of the three
  values that are not. An object is given by its own enumerable properties in enumeration
  order; an array is the object whose properties are its indices.
\<close>

datatype jsnumber = Fin rat | NaN | PosInf | NegInf

datatype jsval =
    VUndefined
  | VNull
  | VBool bool
  | VNum jsnumber
  | VStr jsstring
  | VObj "(jsstring \<times> jsval) list"
  | VFun jsstring

type_synonym jsobject = "(jsstring \<times> jsval) list"

datatype jstype = TUndefined | TObject | TBoolean | TNumber | TString | TFunction

fun typeof :: "jsval \<Rightarrow> jstype" where
  "typeof VUndefined = TUndefined"
| "typeof VNull = TObject"
| "typeof (VBool b) = TBoolean"
| "typeof (VNum n) = TNumber"
| "typeof (VStr s) = TString"
| "typeof (VObj ps) = TObject"
| "typeof (VFun f) = TFunction"

text \<open>Truthiness, as \<open>if (v)\<close> and \<open>v || w\<close> test it.\<close>

fun truthy :: "jsval \<Rightarrow> bool" where
  "truthy VUndefined = False"
| "truthy VNull = False"
| "truthy (VBool b) = b"
| "truthy (VNum n) = (n \<noteq> NaN \<and> n \<noteq> Fin 0)"
| "truthy (VStr s) = (s \<noteq> [])"
| "truthy (VObj ps) = True"
| "truthy (VFun f) = True"

text \<open>
  \<open>obj[key] = v\<close> on a plain object: an own property is overwritten and keeps its place; a new
  property is added at the end. When the object has no own property \<open>__proto__\<close>, the
  assignment \<open>obj['__proto__'] = v\<close> goes to the setter inherited from \<open>Object.prototype\<close>
  and adds no own property. (A new property whose name is an array index is enumerated
  before the properties with other names, in ascending order. The objects built here by
  assignment receive their keys in the enumeration order of another object, index names
  first, and then \<open>content-type\<close>: for them the end of the list is that place.)
\<close>

fun assign :: "jsstring \<Rightarrow> jsval \<Rightarrow> jsobject \<Rightarrow> jsobject" where
  "assign k v [] = (if k = js ''__proto__'' then [] else [(k, v)])"
| "assign k v ((k', v') # ps) = (if k = k' then (k, v) # ps else (k', v') # assign k v ps)"

text \<open>
  The properties every plain object inherits from \<open>Object.prototype\<close>: eleven functions and
  the accessor \<open>__proto__\<close>, which returns \<open>Object.prototype\<close> itself, an object with no
  enumerable property.
\<close>

definition object_prototype :: "jsstring \<Rightarrow> jsval" where
  "object_prototype k =
     (if k = js ''constructor'' then VFun (js ''Object'')
      else if k \<in> set (map js [''__defineGetter__'', ''__defineSetter__'', ''hasOwnProperty'',
                ''__lookupGetter__'', ''__lookupSetter__'', ''isPrototypeOf'',
                ''propertyIsEnumerable'', ''toString'', ''valueOf'', ''toLocaleString''])
      then VFun k
      else if k = js ''__proto__'' then VObj []
      else VUndefined)"

text \<open>
  \<open>obj[key]\<close> on a plain object: the own property if there is one, else the property
  inherited from \<open>Object.prototype\<close>, else \<open>undefined\<close>.
\<close>

definition get :: "jsobject \<Rightarrow> jsstring \<Rightarrow> jsval" where
  "get obj k = (case map_of obj k of Some v \<Rightarrow> v | None \<Rightarrow> object_prototype k)"

section \<open>dirview: formatBytes\<close>

text \<open>
  \<^verbatim>\<open>
  const formatBytes = function (b) {
      if (b < 1024) return b + ' B'
      else if (b < 1024 * 1024) return (b / 1024).toFixed(2) + ' K'
      else if (b < 1024 * 1024 * 1024) return (b / 1024 / 1024).toFixed(2) + ' M'
      else return (b / 1024 / 1024 / 1024).toFixed(2) + ' G'
  }
  \<close>
  The argument is \<open>stat.size\<close>, a non-negative integer.
\<close>

definition formatBytes :: "nat \<Rightarrow> jsstring" where
  "formatBytes b =
     (if b < 1024 then digits b @ js '' B''
      else if b < 1024 * 1024 then toFixed2 b 1024 @ js '' K''
      else if b < 1024 * 1024 * 1024 then toFixed2 b (1024 * 1024) @ js '' M''
      else toFixed2 b (1024 * 1024 * 1024) @ js '' G'')"

section \<open>Config\<close>

text \<open>
  The environment of the process: \<open>path.resolve\<close> (which depends on the working directory
  and the platform), whether \<open>process.platform\<close> is \<open>win32\<close>, \<open>formatDate\<close>, which renders
  an ISO timestamp in the local time zone of the process, and the lower-case mapping of the
  runtime for strings that are not ASCII.
\<close>

record env =
  path_resolve :: "jsstring \<Rightarrow> jsstring"
  win32 :: bool
  formatDate :: "jsstring \<Rightarrow> jsstring"
  unicode_lower :: "jsstring \<Rightarrow> jsstring"

text \<open>
  The field initialisers of \<open>class Config\<close>: the own properties of a new instance before
  the constructor body runs.
\<close>

definition defaults :: jsobject where
  "defaults =
     [(js ''root'', VStr (js ''.'')),
      (js ''port'', VNum (Fin 1234)),
      (js ''baseurl'', VStr (js ''/'')),
      (js ''autoindex'', VBool False),
      (js ''servedir'', VBool True),
      (js ''headers'',
         VObj [(js ''cache-control'', VStr (js ''public, max-age=604800, immutable''))]),
      (js ''mimes'', VObj []),
      (js ''logfile'', VStr []),
      (js ''verbose'', VBool True),
      (js ''debug'', VBool False)]"

datatype config_error =
    UnrecognizedOption jsstring
  | TypeMismatch jsstring jstype jstype
  | EmptyRoot
  | InvalidPort jsnumber
  | MutuallyExclusive
  | ValuesMustBeStrings jsstring
  | NullToObject

text \<open>
  \<^verbatim>\<open>
  for (const key in opts) {
      if (!this.hasOwnProperty(key)) throw new Error(`unrecognized option: ${ key }`)
      if (typeof opts[key] !== typeof this[key]) throw new Error(`config.${ key } type error: ...`)
      this[key] = opts[key]
  }
  \<close>
  \<open>opts\<close> is the list of its enumerable properties in enumeration order, \<open>this\<close> the
  instance under construction.
\<close>

fun merge :: "jsobject \<Rightarrow> jsobject \<Rightarrow> config_error + jsobject" where
  "merge [] this = Inr this"
| "merge ((key, v) # opts) this =
     (case map_of this key of
        None \<Rightarrow> Inl (UnrecognizedOption key)
      | Some cur \<Rightarrow>
          if typeof v \<noteq> typeof cur then Inl (TypeMismatch key (typeof cur) (typeof v))
          else merge opts (assign key v this))"

text \<open>The validated configuration, as the rest of the server reads it.\<close>

record config =
  root :: jsstring
  port :: nat
  baseurl :: jsstring
  autoindex :: bool
  servedir :: bool
  headers :: jsobject
  mimes :: jsobject
  logfile :: jsstring
  verbose :: bool
  debug :: bool

text \<open>Reading a field of the instance at the type its default has.\<close>

definition str_field :: "jsobject \<Rightarrow> string \<Rightarrow> jsstring" where
  "str_field this k = (case map_of this (js k) of Some (VStr s) \<Rightarrow> s | _ \<Rightarrow> [])"

definition bool_field :: "jsobject \<Rightarrow> string \<Rightarrow> bool" where
  "bool_field this k = (case map_of this (js k) of Some (VBool b) \<Rightarrow> b | _ \<Rightarrow> False)"

definition num_field :: "jsobject \<Rightarrow> string \<Rightarrow> jsnumber" where
  "num_field this k = (case map_of this (js k) of Some (VNum n) \<Rightarrow> n | _ \<Rightarrow> NaN)"

definition obj_field :: "jsobject \<Rightarrow> string \<Rightarrow> jsobject option" where
  "obj_field this k = (case map_of this (js k) of Some (VObj ps) \<Rightarrow> Some ps | _ \<Rightarrow> None)"

text \<open>\<open>Number.isInteger(n) && 1 <= n && n <= 65535\<close>, negated in the source.\<close>

definition valid_port :: "jsnumber \<Rightarrow> bool" where
  "valid_port n = (case n of Fin r \<Rightarrow> r = of_int \<lfloor>r\<rfloor> \<and> 1 \<le> r \<and> r \<le> 65535 | _ \<Rightarrow> False)"

definition port_number :: "jsnumber \<Rightarrow> nat" where
  "port_number n = (case n of Fin r \<Rightarrow> nat \<lfloor>r\<rfloor> | _ \<Rightarrow> 0)"

text \<open>\<open>s.replace(/\\/g, '/')\<close>.\<close>

definition backslashes_to_slashes :: "jsstring \<Rightarrow> jsstring" where
  "backslashes_to_slashes s = map (\<lambda>c. if c = 92 then slash else c) s"

definition resolve_path :: "env \<Rightarrow> jsstring \<Rightarrow> jsstring" where
  "resolve_path e p =
     (let q = path_resolve e p in if win32 e then backslashes_to_slashes q else q)"

text \<open>
  \<^verbatim>\<open>
  for (const val of Object.values(this[prop]))
      if (typeof val !== 'string') throw new Error(`config.${ prop } values must be strings`)
  \<close>
  \<open>typeof null\<close> is \<open>'object'\<close>, so \<open>null\<close> passes the merge, and \<open>Object.values(null)\<close>
  throws a \<open>TypeError\<close>.
\<close>

definition check_values :: "jsobject \<Rightarrow> string \<Rightarrow> config_error + jsobject" where
  "check_values this prop =
     (case obj_field this prop of
        None \<Rightarrow> Inl NullToObject
      | Some ps \<Rightarrow>
          if \<forall>v \<in> set (map snd ps). typeof v = TString then Inr ps
          else Inl (ValuesMustBeStrings (js prop)))"

text \<open>The constructor of \<open>class Config\<close>, its checks in the order of the source.\<close>

definition Config_new :: "env \<Rightarrow> jsobject \<Rightarrow> config_error + config" where
  "Config_new e opts =
     (case merge opts defaults of
        Inl err \<Rightarrow> Inl err
      | Inr this \<Rightarrow>
          if str_field this ''root'' = [] then Inl EmptyRoot
          else if \<not> valid_port (num_field this ''port'')
            then Inl (InvalidPort (num_field this ''port''))
          else if bool_field this ''autoindex'' \<and> bool_field this ''servedir''
            then Inl MutuallyExclusive
          else (case check_values this ''headers'' of
                  Inl err \<Rightarrow> Inl err
                | Inr hs \<Rightarrow>
                    (case check_values this ''mimes'' of
                       Inl err \<Rightarrow> Inl err
                     | Inr ms \<Rightarrow>
                         Inr \<lparr>root = resolve_path e (str_field this ''root''),
                              port = port_number (num_field this ''port''),
                              baseurl = trim_slashes (str_field this ''baseurl''),
                              autoindex = bool_field this ''autoindex'',
                              servedir = bool_field this ''servedir'',
                              headers = hs,
                              mimes = ms,
                              logfile = (if str_field this ''logfile'' = [] then []
                                         else resolve_path e (str_field this ''logfile'')),
                              verbose = bool_field this ''verbose'',
                              debug = bool_field this ''debug''\<rparr>)))"

section \<open>The filesystem and the events of a request\<close>

text \<open>
  The filesystem as the server reads it. \<open>statSync\<close> and \<open>readdirSync\<close> return their result
  or the error they throw, with its \<open>code\<close> and \<open>message\<close>; \<open>readStream\<close> gives the chunks a
  read stream on the path delivers and the error that ends it, if one does; \<open>openLog\<close> is the
  creation of the log file and its directory, with the error it throws, if it does.
\<close>

datatype fserror = FsError (code: jsstring) (message: jsstring)

datatype ftype = IsFile | IsDirectory | IsOther

record stats =
  st_type :: ftype
  st_size :: nat
  st_ctime :: jsstring

record dirent =
  d_name :: jsstring
  d_type :: ftype

record fsys =
  statSync :: "jsstring \<Rightarrow> fserror + stats"
  readdirSync :: "jsstring \<Rightarrow> fserror + dirent list"
  readStream :: "jsstring \<Rightarrow> jsstring list \<times> fserror option"
  openLog :: "jsstring \<Rightarrow> fserror option"

text \<open>
  \<open>fs.existsSync\<close> never throws: it is true when the path can be reached and false on every
  error, a missing entry and an unreadable directory alike.
\<close>

definition existsSync :: "fsys \<Rightarrow> jsstring \<Rightarrow> bool" where
  "existsSync fs p = (case statSync fs p of Inl err \<Rightarrow> False | Inr st \<Rightarrow> True)"

text \<open>
  What a request does, in order: calls of \<open>this.log\<close> (to the console and, when one is
  configured, the log file), accesses to the filesystem through \<open>fs\<close>, and writes to the
  response.
\<close>

datatype event =
    Log jsstring
  | ExistsSync jsstring
  | StatSync jsstring
  | ReaddirSync jsstring
  | CreateReadStream jsstring
  | WriteHead nat jsobject
  | Write jsstring
  | End "jsstring option"

fun is_fs_access :: "event \<Rightarrow> bool" where
  "is_fs_access (ExistsSync p) = True"
| "is_fs_access (StatSync p) = True"
| "is_fs_access (ReaddirSync p) = True"
| "is_fs_access (CreateReadStream p) = True"
| "is_fs_access e = False"

fun is_response :: "event \<Rightarrow> bool" where
  "is_response (WriteHead c h) = True"
| "is_response (Write d) = True"
| "is_response (End b) = True"
| "is_response e = False"

record request =
  req_method :: jsstring
  url :: jsstring

text \<open>What a request listener can throw: an error of the filesystem, or the \<open>TypeError\<close> of
  \<open>res.writeHead\<close> for a header it refuses.\<close>

datatype exn =
    FsException fserror
  | InvalidHeaderName jsstring
  | InvalidHeaderValue jsstring

text \<open>
  \<open>res.writeHead(status, headers)\<close> validates every own property of \<open>headers\<close> in order,
  the name first and then the value, and throws at the first it refuses. A name must be a
  non-empty HTTP token: letters, digits and the characters \<open>^ _ ` - ! # $ % & ' * + . | ~\<close>.
  A value must not be \<open>undefined\<close>, and its text must consist of tabs and the code units 32
  to 126 and 128 to 255; the text of a value that is not a string (a native function, an
  object, a number) does.
\<close>

definition token_char :: "nat \<Rightarrow> bool" where
  "token_char ch =
     ((48 \<le> ch \<and> ch \<le> 57) \<or> (65 \<le> ch \<and> ch \<le> 90) \<or> (94 \<le> ch \<and> ch \<le> 122) \<or>
      ch = 33 \<or> (35 \<le> ch \<and> ch \<le> 39) \<or> ch = 42 \<or> ch = 43 \<or> ch = 45 \<or> ch = 46 \<or>
      ch = 124 \<or> ch = 126)"

definition header_char :: "nat \<Rightarrow> bool" where
  "header_char ch = (ch = 9 \<or> (32 \<le> ch \<and> ch \<le> 126) \<or> (128 \<le> ch \<and> ch \<le> 255))"

definition valid_header_name :: "jsstring \<Rightarrow> bool" where
  "valid_header_name k = (k \<noteq> [] \<and> list_all token_char k)"

fun valid_header_value :: "jsval \<Rightarrow> bool" where
  "valid_header_value VUndefined = False"
| "valid_header_value (VStr s) = list_all header_char s"
| "valid_header_value v = True"

fun check_headers :: "jsobject \<Rightarrow> exn option" where
  "check_headers [] = None"
| "check_headers ((k, v) # hs) =
     (if \<not> valid_header_name k then Some (InvalidHeaderName k)
      else if \<not> valid_header_value v then Some (InvalidHeaderValue k)
      else check_headers hs)"

text \<open>
  A call of \<open>res.writeHead\<close> followed by the events \<open>rest\<close>: when the call throws, nothing is
  written and what follows is not reached.
\<close>

definition writeHead :: "nat \<Rightarrow> jsobject \<Rightarrow> event list \<Rightarrow> event list \<times> exn option" where
  "writeHead status hs rest =
     (case check_headers hs of
        Some x \<Rightarrow> ([], Some x)
      | None \<Rightarrow> (WriteHead status hs # rest, None))"

section \<open>R: the resolved request\<close>

record R =
  r_id :: jsstring
  r_headers :: jsobject
  r_rel :: jsstring
  r_abs :: jsstring

text \<open>\<open>try { url = decodeURIComponent(url) } catch {}\<close>\<close>

definition decoded :: "jsstring \<Rightarrow> jsstring" where
  "decoded u = (case decodeURIComponent u of None \<Rightarrow> u | Some d \<Rightarrow> d)"

text \<open>
  \<open>this.rel = url.replace(config.baseurl, '').replace(/\/{2,}/g, '/').replace(/^\//g, '').replace(/\/$/g, '')\<close>
\<close>

definition rel_of_url :: "config \<Rightarrow> jsstring \<Rightarrow> jsstring" where
  "rel_of_url c u = trim_slashes (remove_first (baseurl c) (decoded u))"

text \<open>
  \<^verbatim>\<open>
  this.abs = this.rel ? `${ rxfs.config.root }/${ this.rel }` : rxfs.config.root
  if (this.abs.startsWith('//')) this.abs = this.abs.slice(1) // edge case when serving /
  \<close>
\<close>

definition abs_of_rel :: "config \<Rightarrow> jsstring \<Rightarrow> jsstring" where
  "abs_of_rel c rel =
     (let a = (if rel \<noteq> [] then root c @ slash # rel else root c)
      in if startsWith a (js ''//'') then drop 1 a else a)"

text \<open>
  \<^verbatim>\<open>
  this.headers = {}
  for (const key in rxfs.config.headers) this.headers[key] = rxfs.config.headers[key]
  \<close>
  The copy is made by assignment, key by key: an own key \<open>__proto__\<close> of the configured
  headers (a configuration read from JSON can have one) is not copied.
\<close>

definition copy_headers :: "jsobject \<Rightarrow> jsobject" where
  "copy_headers hs = foldl (\<lambda>obj (k, v). assign k v obj) [] hs"

text \<open>
  The constructor of \<open>class R\<close>. The existence check of \<open>index.html\<close> is made only when
  \<open>autoindex\<close> is set, and is then an access to the filesystem.
\<close>

definition R_new :: "config \<Rightarrow> fsys \<Rightarrow> request \<Rightarrow> jsstring \<Rightarrow> R \<times> event list" where
  "R_new c fs req ident =
     (let rel = rel_of_url c (url req);
          path = abs_of_rel c rel;
          r = \<lparr>r_id = ident, r_headers = copy_headers (headers c), r_rel = rel, r_abs = path\<rparr>
      in if autoindex c then
           (if existsSync fs (path @ js ''/index.html'')
            then (r\<lparr>r_rel := (if rel \<noteq> [] then rel @ js ''/index.html'' else js ''index.html''),
                    r_abs := path @ js ''/index.html''\<rparr>,
                  [ExistsSync (path @ js ''/index.html'')])
            else (r, [ExistsSync (path @ js ''/index.html'')]))
         else (r, []))"

section \<open>The MIME table\<close>

definition mimes_literal :: "(string \<times> string) list" where
  "mimes_literal =
     [(''3gp'', ''video/3gpp''),
      (''3gpp'', ''video/3gpp''),
      (''7z'', ''application/x-7z-compressed''),
      (''ai'', ''application/postscript''),
      (''asf'', ''video/x-ms-asf''),
      (''asx'', ''video/x-ms-asf''),
      (''atom'', ''application/atom+xml''),
      (''avi'', ''video/x-msvideo''),
      (''bin'', ''application/octet-stream''),
      (''bmp'', ''image/x-ms-bmp''),
      (''cco'', ''application/x-cocoa''),
      (''crt'', ''application/x-x509-ca-cert''),
      (''css'', ''text/css''),
      (''deb'', ''application/octet-stream''),
      (''der'', ''application/x-x509-ca-cert''),
      (''dll'', ''application/octet-stream''),
      (''dmg'', ''application/octet-stream''),
      (''doc'', ''application/msword''),
      (''docx'', ''application/vnd.openxmlformats-officedocument.wordprocessingml.document''),
      (''ear'', ''application/java-archive''),
      (''eot'', ''application/vnd.ms-fontobject''),
      (''eps'', ''application/postscript''),
      (''exe'', ''application/octet-stream''),
      (''flv'', ''video/x-flv''),
      (''gif'', ''image/gif''),
      (''hqx'', ''application/mac-binhex40''),
      (''htc'', ''text/x-component''),
      (''htm'', ''text/html''),
      (''html'', ''text/html''),
      (''ico'', ''image/x-icon''),
      (''img'', ''application/octet-stream''),
      (''iso'', ''application/octet-stream''),
      (''jad'', ''text/vnd.sun.j2me.app-descriptor''),
      (''jar'', ''application/java-archive''),
      (''jardiff'', ''application/x-java-archive-diff''),
      (''jng'', ''image/x-jng''),
      (''jnlp'', ''application/x-java-jnlp-file''),
      (''jpeg'', ''image/jpeg''),
      (''jpg'', ''image/jpeg''),
      (''js'', ''application/javascript''),
      (''json'', ''application/json''),
      (''kar'', ''audio/midi''),
      (''kml'', ''application/vnd.google-earth.kml+xml''),
      (''kmz'', ''application/vnd.google-earth.kmz''),
      (''m3u8'', ''application/vnd.apple.mpegurl''),
      (''m4a'', ''audio/x-m4a''),
      (''m4v'', ''video/x-m4v''),
      (''mid'', ''audio/midi''),
      (''midi'', ''audio/midi''),
      (''mml'', ''text/mathml''),
      (''mng'', ''video/x-mng''),
      (''mov'', ''video/quicktime''),
      (''mp3'', ''audio/mpeg''),
      (''mp4'', ''video/mp4''),
      (''mpeg'', ''video/mpeg''),
      (''mpg'', ''video/mpeg''),
      (''msi'', ''application/octet-stream''),
      (''msm'', ''application/octet-stream''),
      (''msp'', ''application/octet-stream''),
      (''ogg'', ''audio/ogg''),
      (''pdb'', ''application/x-pilot''),
      (''pdf'', ''application/pdf''),
      (''pem'', ''application/x-x509-ca-cert''),
      (''pl'', ''application/x-perl''),
      (''pm'', ''application/x-perl''),
      (''png'', ''image/png''),
      (''ppt'', ''application/vnd.ms-powerpoint''),
      (''pptx'', ''application/vnd.openxmlformats-officedocument.presentationml.presentation''),
      (''prc'', ''application/x-pilot''),
      (''ps'', ''application/postscript''),
      (''ra'', ''audio/x-realaudio''),
      (''rar'', ''application/x-rar-compressed''),
      (''rpm'', ''application/x-redhat-package-manager''),
      (''rss'', ''application/rss+xml''),
      (''rtf'', ''application/rtf''),
      (''run'', ''application/x-makeself''),
      (''sea'', ''application/x-sea''),
      (''shtml'', ''text/html''),
      (''sit'', ''application/x-stuffit''),
      (''svg'', ''image/svg+xml''),
      (''svgz'', ''image/svg+xml''),
      (''swf'', ''application/x-shockwave-flash''),
      (''tcl'', ''application/x-tcl''),
      (''tif'', ''image/tiff''),
      (''tiff'', ''image/tiff''),
      (''tk'', ''application/x-tcl''),
      (''ts'', ''video/mp2t''),
      (''txt'', ''text/plain''),
      (''war'', ''application/java-archive''),
      (''wbmp'', ''image/vnd.wap.wbmp''),
      (''webm'', ''video/webm''),
      (''webp'', ''image/webp''),
      (''wml'', ''text/vnd.wap.wml''),
      (''wmlc'', ''application/vnd.wap.wmlc''),
      (''wmv'', ''video/x-ms-wmv''),
      (''woff'', ''application/font-woff''),
      (''xhtml'', ''application/xhtml+xml''),
      (''xls'', ''application/vnd.ms-excel''),
      (''xlsx'', ''application/vnd.openxmlformats-officedocument.spreadsheetml.sheet''),
      (''xml'', ''text/xml''),
      (''xpi'', ''application/x-xpinstall''),
      (''xspf'', ''application/xspf+xml''),
      (''zip'', ''application/zip'')]"

text \<open>
  \<^verbatim>\<open>
  mimes['js'] = 'text/javascript'
  mimes['log'] = 'text/plain'
  \<close>
\<close>

definition mimes_builtin :: jsobject where
  "mimes_builtin =
     assign (js ''log'') (VStr (js ''text/plain''))
       (assign (js ''js'') (VStr (js ''text/javascript''))
          (map (\<lambda>(k, v). (js k, VStr (js v))) mimes_literal))"

text \<open>
  \<open>path.parse(p).ext\<close> on a POSIX path: in the last segment of the path (trailing slashes
  apart), the text from the last dot on; empty when the segment has no dot, when its only dot
  is its first character, and when the segment is \<open>..\<close>.
\<close>

definition basename :: "jsstring \<Rightarrow> jsstring" where
  "basename p = rev (takeWhile (\<lambda>c. c \<noteq> slash) (dropWhile (\<lambda>c. c = slash) (rev p)))"

definition path_ext :: "jsstring \<Rightarrow> jsstring" where
  "path_ext p =
     (let b = basename p; e = rev (takeWhile (\<lambda>c. c \<noteq> dot) (rev b))
      in if dot \<notin> set b \<or> length e + 1 = length b \<or> b = [dot, dot] then [] else dot # e)"

section \<open>dirview\<close>

datatype item =
    ItemFile jsstring nat jsstring
  | ItemDir jsstring "nat option" jsstring
  | ItemEtc jsstring

definition dir_row :: "jsstring \<Rightarrow> jsstring \<Rightarrow> jsstring \<Rightarrow> jsstring \<Rightarrow> jsstring" where
  \<open>dir_row href name sz time =
     js ''\<newline>'' @
     js ''                <tr>\<newline>'' @
     js ''                    <td class="bold">\<newline>'' @
     js ''                        <a href="'' @
     href @
     js ''">'' @
     name @
     js ''</a>\<newline>'' @
     js ''                    </td>\<newline>'' @
     js ''                    <td class="bold">\<newline>'' @
     js ''                        <a href="'' @
     href @
     js ''">'' @
     sz @
     js ''</a>\<newline>'' @
     js ''                    </td>\<newline>'' @
     js ''                    <td class="bold">\<newline>'' @
     js ''                        <a href="'' @
     href @
     js ''">'' @
     time @
     js ''</a>\<newline>'' @
     js ''                    </td>\<newline>'' @
     js ''                </tr>''\<close>

definition dir_row_gray :: "jsstring \<Rightarrow> jsstring \<Rightarrow> jsstring \<Rightarrow> jsstring" where
  \<open>dir_row_gray name sz time =
     js ''\<newline>'' @
     js ''                <tr>\<newline>'' @
     js ''                    <td class="bold gray">\<newline>'' @
     js ''                        '' @
     name @
     js ''\<newline>'' @
     js ''                    </td>\<newline>'' @
     js ''                    <td class="bold gray">\<newline>'' @
     js ''                        '' @
     sz @
     js ''\<newline>'' @
     js ''                    </td>\<newline>'' @
     js ''                    <td class="bold gray">\<newline>'' @
     js ''                        '' @
     time @
     js ''\<newline>'' @
     js ''                    </td>\<newline>'' @
     js ''                </tr>''\<close>

definition file_row :: "jsstring \<Rightarrow> jsstring \<Rightarrow> jsstring \<Rightarrow> jsstring \<Rightarrow> jsstring" where
  \<open>file_row href name sz time =
     js ''\<newline>'' @
     js ''            <tr>\<newline>'' @
     js ''                <td class="name">\<newline>'' @
     js ''                    <a class="file" href="'' @
     href @
     js ''">'' @
     name @
     js ''</a>\<newline>'' @
     js ''                </td>\<newline>'' @
     js ''                <td>\<newline>'' @
     js ''                    <a class="file" href="'' @
     href @
     js ''">'' @
     sz @
     js ''</a>\<newline>'' @
     js ''                </td>\<newline>'' @
     js ''                <td class="date">\<newline>'' @
     js ''                    <a class="file date" href="'' @
     href @
     js ''">'' @
     time @
     js ''\<newline>'' @
     js ''                </td>\<newline>'' @
     js ''            </tr>''\<close>

text \<open>The static text of the page, between the places where the template inserts a value.\<close>

definition page_head :: jsstring where
  \<open>page_head =
     js ''<!DOCTYPE html>\<newline>'' @
     js ''<html lang="en">\<newline>'' @
     js ''<head>\<newline>'' @
     js ''    <meta charset="UTF-8">\<newline>'' @
     js ''    <meta name="viewport" content="width=device-width, initial-scale=1">\<newline>'' @
     js ''    <title>''\<close>

definition page_style :: jsstring where
  \<open>page_style =
     js ''</title>\<newline>'' @
     js ''    <style>\<newline>'' @
     js ''        * {\<newline>'' @
     js ''            margin: 0;\<newline>'' @
     js ''            padding: 0;\<newline>'' @
     js ''            box-sizing: border-box;\<newline>'' @
     js ''        }\<newline>'' @
     js ''        \<newline>'' @
     js ''        body {\<newline>'' @
     js ''            background-color: #ededed;\<newline>'' @
     js ''            font-family: monospace;\<newline>'' @
     js ''            font-size: 1.25em;\<newline>'' @
     js ''        }\<newline>'' @
     js ''        \<newline>'' @
     js ''        .main {\<newline>'' @
     js ''            display: flex;\<newline>'' @
     js ''            flex-flow: column nowrap;\<newline>'' @
     js ''            max-width: 1280px;\<newline>'' @
     js ''            margin: 0 auto;\<newline>'' @
     js ''        }\<newline>'' @
     js ''        \<newline>'' @
     js ''        a {\<newline>'' @
     js ''            text-decoration: none;\<newline>'' @
     js ''            color: rgb(50, 50, 50);\<newline>'' @
     js ''        }\<newline>'' @
     js ''        \<newline>'' @
     js ''        hr {\<newline>'' @
     js ''            margin: 0 0 15px 0;\<newline>'' @
     js ''            height: 1px;\<newline>'' @
     js ''            color: rgba(129,129,129,0.5);\<newline>'' @
     js ''        }\<newline>'' @
     js ''        \<newline>'' @
     js ''        .breadcrumbs {\<newline>'' @
     js ''            margin: 15px 0;\<newline>'' @
     js ''            line-height: 20px;\<newline>'' @
     js ''        }\<newline>'' @
     js ''        \<newline>'' @
     js ''        .breadcrumbs a, .breadcrumbs span {\<newline>'' @
     js ''            color: rgba(129,129,129,0.5);\<newline>'' @
     js ''        }\<newline>'' @
     js ''        \<newline>'' @
     js ''        .breadcrumbs a:hover, .breadcrumbs a:last-child {\<newline>'' @
     js ''            color: rgb(50, 50, 50);\<newline>'' @
     js ''        }\<newline>'' @
     js ''        \<newline>'' @
     js ''        table {\<newline>'' @
     js ''            /*border: 1px solid #333;*/\<newline>'' @
     js ''            width: 100%;\<newline>'' @
     js ''            max-width: 1280px;\<newline>'' @
     js ''            border-spacing: 0;\<newline>'' @
     js ''            margin-bottom: 50px;\<newline>'' @
     js ''        }\<newline>'' @
     js ''        \<newline>'' @
     js ''        tr {\<newline>'' @
     js ''            /*border-top: 1px solid #333;*/\<newline>'' @
     js ''        }\<newline>'' @
     js ''        \<newline>'' @
     js ''        tr:nth-child(even) {\<newline>'' @
     js ''            background-color: #e5e5e5;\<newline>'' @
     js ''        }\<newline>'' @
     js ''        \<newline>'' @
     js ''        tr:hover {\<newline>'' @
     js ''            background-color: #fff;\<newline>'' @
     js ''        }\<newline>'' @
     js ''        \<newline>'' @
     js ''        td {\<newline>'' @
     js ''            text-align: left;\<newline>'' @
     js ''            padding: 0;\<newline>'' @
     js ''            white-space:nowrap;\<newline>'' @
     js ''        }\<newline>'' @
     js ''        \<newline>'' @
     js ''        td:first-child {\<newline>'' @
     js ''            width: 100%;\<newline>'' @
     js ''        }\<newline>'' @
     js ''        \<newline>'' @
     js ''        td:nth-child(2n) {\<newline>'' @
     js ''            padding-right: 15px;\<newline>'' @
     js ''            text-align: right;\<newline>'' @
     js ''        }\<newline>'' @
     js ''        \<newline>'' @
     js ''        td:nth-child(3n) {\<newline>'' @
     js ''            text-align: right;\<newline>'' @
     js ''        }\<newline>'' @
     js ''        \<newline>'' @
     js ''        td a {\<newline>'' @
     js ''            display: block;\<newline>'' @
     js ''            width: 100%;\<newline>'' @
     js ''            /*padding-right: 50px;*/\<newline>'' @
     js ''        }\<newline>'' @
     js ''        \<newline>'' @
     js ''        .bold {\<newline>'' @
     js ''            font-weight: bold;\<newline>'' @
     js ''        }\<newline>'' @
     js ''        \<newline>'' @
     js ''        .gray {\<newline>'' @
     js ''            color: rgba(129,129,129,0.5);\<newline>'' @
     js ''        }\<newline>'' @
     js ''    </style>\<newline>'' @
     js ''</head>\<newline>'' @
     js ''<body>\<newline>'' @
     js ''\<newline>'' @
     js ''    <div class="main">\<newline>'' @
     js ''        ''\<close>

definition page_table :: jsstring where
  \<open>page_table =
     js ''\<newline>'' @
     js ''        <hr>\<newline>'' @
     js ''        <table>\<newline>'' @
     js ''            <tbody>\<newline>'' @
     js ''                ''\<close>

definition page_sep :: jsstring where
  \<open>page_sep =
     js ''\<newline>'' @
     js ''                ''\<close>

definition page_end :: jsstring where
  \<open>page_end =
     js ''\<newline>'' @
     js ''            </tbody>\<newline>'' @
     js ''        </table>   \<newline>'' @
     js ''    </div>\<newline>'' @
     js ''     \<newline>'' @
     js ''</body>\<newline>'' @
     js ''</html>''\<close>

definition base_of :: "config \<Rightarrow> jsstring" where
  \<open>base_of c =
     (if baseurl c \<noteq> [] then js ''http://localhost:'' @ digits (port c) @ slash # baseurl c
      else js ''http://localhost:'' @ digits (port c))\<close>

definition anchor :: "jsstring \<Rightarrow> jsstring \<Rightarrow> jsstring" where
  \<open>anchor href text = js ''<a href="'' @ href @ js ''">'' @ text @ js ''</a>''\<close>

text \<open>
  \<^verbatim>\<open>
  const href = `${ base }/${ split.slice(0, i + 1).join('/') }`
  const text = (root === '/' && i === 0) ? split[i] : '/' + split[i]
  breadcrumbs += `<a href="${ href }">${ text }</a>`
  \<close>
\<close>

definition crumb :: "config \<Rightarrow> jsstring list \<Rightarrow> nat \<Rightarrow> jsstring" where
  "crumb c split i =
     anchor (base_of c @ slash # join_slash (take (i + 1) split))
            (if root c = js ''/'' \<and> i = 0 then split ! i else slash # split ! i)"

definition breadcrumbs :: "config \<Rightarrow> jsstring \<Rightarrow> jsstring" where
  \<open>breadcrumbs c relpath =
     js ''<div class="breadcrumbs">'' @
     anchor (base_of c) (root c) @
     (if relpath \<noteq> []
      then concat (map (crumb c (split_slash relpath)) [0..<length (split_slash relpath)])
      else []) @
     js ''</div>''\<close>

text \<open>\<open>s.slice(0, s.lastIndexOf('/'))\<close> for a string that has a slash.\<close>

definition before_last_slash :: "jsstring \<Rightarrow> jsstring" where
  "before_last_slash s = rev (drop 1 (dropWhile (\<lambda>c. c \<noteq> slash) (rev s)))"

definition up_row :: "config \<Rightarrow> jsstring \<Rightarrow> jsstring" where
  \<open>up_row c relpath =
     (if relpath \<noteq> []
      then js ''<tr><td colspan="3" class="name"><a href="'' @
           (base_of c @ (if slash \<in> set relpath then slash # before_last_slash relpath else [])) @
           js ''">..</a></td></tr>''
      else [])\<close>

text \<open>
  The loop over the items, with its three accumulators \<open>dirs\<close>, \<open>files\<close> and \<open>etc\<close>. The
  branch of the other items is empty in the source (\<open>// TODO\<close>): it adds nothing.
\<close>

fun item_rows ::
  "env \<Rightarrow> jsstring \<Rightarrow> jsstring \<Rightarrow> item list \<Rightarrow> jsstring \<times> jsstring \<times> jsstring \<Rightarrow>
   jsstring \<times> jsstring \<times> jsstring" where
  "item_rows e base relpath [] acc = acc"
| "item_rows e base relpath (ItemDir name sz time # items) (dirs, files, etc) =
     (let href = base @ (if relpath \<noteq> [] then slash # relpath @ slash # name else slash # name)
      in case sz of
           Some n \<Rightarrow>
             item_rows e base relpath items
               (dirs @ dir_row href name (digits n) (formatDate e time), files, etc)
         | None \<Rightarrow>
             item_rows e base relpath items
               (dirs @ dir_row_gray name (js ''N/A'') (formatDate e time), files, etc))"
| "item_rows e base relpath (ItemFile name sz time # items) (dirs, files, etc) =
     (let href = base @ (if relpath \<noteq> [] then slash # relpath @ slash # name else slash # name)
      in item_rows e base relpath items
           (dirs, files @ file_row href name (formatBytes sz) (formatDate e time), etc))"
| "item_rows e base relpath (ItemEtc name # items) (dirs, files, etc) =
     item_rows e base relpath items (dirs, files, etc)"

definition dirview :: "env \<Rightarrow> config \<Rightarrow> jsstring \<Rightarrow> item list \<Rightarrow> jsstring" where
  "dirview e c relpath items =
     (case item_rows e (base_of c) relpath items ([], [], []) of
        (dirs, files, etc) \<Rightarrow>
          page_head @ (if relpath \<noteq> [] then relpath else js ''/'') @ page_style @
          breadcrumbs c relpath @ page_table @
          up_row c relpath @ page_sep @ dirs @ page_sep @ files @ page_sep @ etc @ page_end)"

section \<open>RXFS: the server\<close>

record rxfs =
  config :: config
  reqcount :: nat

datatype startup_error =
    ConfigError config_error
  | NoSuchDirectory jsstring
  | NotADirectory jsstring
  | LogFileFailed jsstring fserror

text \<open>
  The constructor of \<open>class RXFS\<close>: the configuration is built first, so an error of
  \<open>Config\<close> leaves the constructor before \<open>http.createServer\<close> and \<open>listen\<close> are reached.
\<close>

definition RXFS_new :: "env \<Rightarrow> fsys \<Rightarrow> jsobject \<Rightarrow> startup_error + rxfs" where
  "RXFS_new e fs opts =
     (case Config_new e opts of
        Inl err \<Rightarrow> Inl (ConfigError err)
      | Inr c \<Rightarrow>
          (case statSync fs (root c) of
             Inl err \<Rightarrow> Inl (NoSuchDirectory (root c))
           | Inr st \<Rightarrow>
               if st_type st \<noteq> IsDirectory then Inl (NotADirectory (root c))
               else if logfile c \<noteq> [] then
                 (case openLog fs (logfile c) of
                    Some err \<Rightarrow> Inl (LogFileFailed (logfile c) err)
                  | None \<Rightarrow> Inr \<lparr>config = c, reqcount = 0\<rparr>)
               else Inr \<lparr>config = c, reqcount = 0\<rparr>))"

text \<open>
  \<open>this.reqcount++\<close>. The counter is a double: adding 1 is exact below \<open>2^53\<close>, and at
  \<open>2^53\<close> the sum \<open>2^53 + 1\<close> is rounded back to \<open>2^53\<close>. Starting from 0 the counter takes
  no other value.
\<close>

definition increment :: "nat \<Rightarrow> nat" where
  "increment n = (if n < 2 ^ 53 then n + 1 else n)"

text \<open>
  \<^verbatim>\<open>
  sendStatus (r, code, msg) {
      this.log(`RES #${ r.id } [status] ${ code } ${ msg }`)
      r.headers['content-type'] = 'text/plain'
      r.res.writeHead(code, r.headers)
      r.res.end(`${ code } : ${ msg }`)
  }
  \<close>
\<close>

definition sendStatus :: "R \<Rightarrow> nat \<Rightarrow> jsstring \<Rightarrow> event list \<times> exn option" where
  "sendStatus r status msg =
     (case writeHead status
             (assign (js ''content-type'') (VStr (js ''text/plain'')) (r_headers r))
             [End (Some (digits status @ js '' : '' @ msg))] of
        (evs, exn) \<Rightarrow>
          (Log (js ''RES #'' @ r_id r @ js '' [status] '' @ digits status @ js '' '' @ msg) # evs,
           exn))"

text \<open>
  \<^verbatim>\<open>
  const ext = path.parse(r.abs).ext.slice(1).toLowerCase()
  r.headers['content-type'] = this.config.mimes[ext] || mimes[ext] || `application/octet-stream`
  \<close>
\<close>

definition content_type :: "env \<Rightarrow> config \<Rightarrow> jsstring \<Rightarrow> jsval" where
  "content_type e c p =
     (let ext = toLowerCase (unicode_lower e) (drop 1 (path_ext p))
      in if truthy (get (mimes c) ext) then get (mimes c) ext
         else if truthy (get mimes_builtin ext) then get mimes_builtin ext
         else VStr (js ''application/octet-stream''))"

text \<open>
  \<open>sendFile\<close>: the head is written, then the stream delivers its chunks and ends, or fails;
  both listeners end the response and log.
\<close>

definition sendFile :: "env \<Rightarrow> config \<Rightarrow> fsys \<Rightarrow> R \<Rightarrow> event list \<times> exn option" where
  "sendFile e c fs r =
     writeHead 200 (assign (js ''content-type'') (content_type e c (r_abs r)) (r_headers r))
       (CreateReadStream (r_abs r) #
        map Write (fst (readStream fs (r_abs r))) @
        (case snd (readStream fs (r_abs r)) of
           Some err \<Rightarrow>
             [End None,
              Log (js ''RES #'' @ r_id r @ js '' [file] error: '' @
                   (if message err \<noteq> [] then message err else js ''Error''))]
         | None \<Rightarrow> [End None, Log (js ''RES #'' @ r_id r @ js '' [file] OK'')]))"

text \<open>
  The loop of \<open>sendDir\<close> over the entries of the directory. \<open>fs.statSync\<close> on an entry is
  outside every \<open>try\<close>: its error leaves the loop and the function. The count of a
  subdirectory is inside a \<open>try\<close>: its error gives the size \<open>'N/A'\<close>.
\<close>

fun list_items ::
  "fsys \<Rightarrow> jsstring \<Rightarrow> dirent list \<Rightarrow> item list \<times> event list \<times> fserror option" where
  "list_items fs dir [] = ([], [], None)"
| "list_items fs dir (d # ds) =
     (if d_type d = IsFile \<or> d_type d = IsDirectory then
        (case statSync fs (dir @ slash # d_name d) of
           Inl err \<Rightarrow> ([], [StatSync (dir @ slash # d_name d)], Some err)
         | Inr st \<Rightarrow>
             (case list_items fs dir ds of
                (items, evs, exn) \<Rightarrow>
                  if d_type d = IsFile then
                    (ItemFile (d_name d) (st_size st) (st_ctime st) # items,
                     StatSync (dir @ slash # d_name d) # evs, exn)
                  else
                    (ItemDir (d_name d)
                       (case readdirSync fs (dir @ slash # d_name d) of
                          Inl err \<Rightarrow> None
                        | Inr children \<Rightarrow> Some (length children))
                       (st_ctime st) # items,
                     StatSync (dir @ slash # d_name d) #
                     ReaddirSync (dir @ slash # d_name d) # evs, exn)))
      else
        (case list_items fs dir ds of
           (items, evs, exn) \<Rightarrow> (ItemEtc (d_name d) # items, evs, exn)))"

text \<open>
  \<open>sendDir\<close>. \<open>fs.readdirSync(r.abs)\<close> is outside every \<open>try\<close> as well. The result is the
  events of the call and the exception that leaves it, if one does.
\<close>

definition sendDir :: "env \<Rightarrow> config \<Rightarrow> fsys \<Rightarrow> R \<Rightarrow> event list \<times> exn option" where
  "sendDir e c fs r =
     (case readdirSync fs (r_abs r) of
        Inl err \<Rightarrow> ([ReaddirSync (r_abs r)], Some (FsException err))
      | Inr ds \<Rightarrow>
          (case list_items fs (r_abs r) ds of
             (items, evs, Some err) \<Rightarrow> (ReaddirSync (r_abs r) # evs, Some (FsException err))
           | (items, evs, None) \<Rightarrow>
               (case writeHead 200
                       (assign (js ''content-type'') (VStr (js ''text/html'')) (r_headers r))
                       [End (Some (dirview e c (r_rel r) items)),
                        Log (js ''RES #'' @ r_id r @ js '' [dir] OK'')] of
                  (written, exn) \<Rightarrow> (ReaddirSync (r_abs r) # evs @ written, exn))))"

text \<open>What handling one request gives: the server afterwards, the id, the events in order,
  and the exception that leaves \<open>handle\<close> uncaught, if one does.\<close>

record outcome =
  server :: rxfs
  ident :: jsstring
  events :: "event list"
  uncaught :: "exn option"

text \<open>An event followed by the events and the exception of a call.\<close>

definition following :: "event \<Rightarrow> event list \<times> exn option \<Rightarrow> event list \<times> exn option" where
  "following ev res = (ev # fst res, snd res)"

text \<open>The part of \<open>handle\<close> after the request is resolved.\<close>

definition dispatch :: "env \<Rightarrow> config \<Rightarrow> fsys \<Rightarrow> request \<Rightarrow> R \<Rightarrow> event list \<times> exn option" where
  "dispatch e c fs req r =
     (if req_method req \<noteq> js ''GET''
        then sendStatus r 405 (js ''method not allowed: '' @ req_method req)
      else if \<not> startsWith (url req) (slash # baseurl c) \<and> url req \<noteq> slash # baseurl c @ [slash]
        then sendStatus r 404 (js ''not found'')
      else
        (case statSync fs (r_abs r) of
           Inl err \<Rightarrow>
             if code err = js ''ENOENT''
             then following (StatSync (r_abs r)) (sendStatus r 404 (js ''not found''))
             else following (StatSync (r_abs r)) (sendStatus r 500 (message err))
         | Inr st \<Rightarrow>
             if st_type st = IsFile then following (StatSync (r_abs r)) (sendFile e c fs r)
             else if st_type st = IsDirectory then
               (if servedir c
                then following (StatSync (r_abs r)) (sendDir e c fs r)
                else following (StatSync (r_abs r))
                       (sendStatus r 400
                          (js ''the server is not configured to serve directories'')))
             else following (StatSync (r_abs r))
                    (sendStatus r 400 (js ''the requested item is not a file or directory''))))"

text \<open>
  \<^verbatim>\<open>
  handle = (req, res) => {
      const id = (this.reqcount++).toString().padStart(3, '0')
      this.log(`REQ #${ id } ${ req.method } ${ req.url }`)
      const r = new R(this, req, res, id)
      ...
  \<close>
  The calls of \<open>this.debug\<close> print to the console when \<open>config.debug\<close> is set and are left out.
\<close>

definition handle :: "env \<Rightarrow> fsys \<Rightarrow> rxfs \<Rightarrow> request \<Rightarrow> outcome" where
  "handle e fs this req =
     (let ident = padStart3 (digits (reqcount this));
          this' = this\<lparr>reqcount := increment (reqcount this)\<rparr>
      in case R_new (config this) fs req ident of
           (r, resolving) \<Rightarrow>
             (case dispatch e (config this) fs req r of
                (evs, exn) \<Rightarrow>
                  \<lparr>server = this', ident = ident,
                   events = Log (js ''REQ #'' @ ident @ js '' '' @ req_method req @ js '' '' @ url req)
                            # resolving @ evs,
                   uncaught = exn\<rparr>))"

text \<open>
  A sequence of requests, each with the filesystem as it is when the request arrives. An
  uncaught exception in the request listener ends the process: no later request is handled.
\<close>

fun serve :: "env \<Rightarrow> rxfs \<Rightarrow> (fsys \<times> request) list \<Rightarrow> outcome list" where
  "serve e this [] = []"
| "serve e this ((fs, req) # rest) =
     (let out = handle e fs this req
      in case uncaught out of
           Some err \<Rightarrow> [out]
         | None \<Rightarrow> out # serve e (server out) rest)"

section \<open>Concrete inputs\<close>

text \<open>
  A POSIX environment whose working directory is \<open>/srv\<close>, and the configuration of the
  README: the directory \<open>output\<close> served at \<open>/blog\<close> with \<open>autoindex\<close>.
\<close>

definition env0 :: env where
  "env0 = \<lparr>path_resolve = (\<lambda>p. js ''/srv/'' @ p), win32 = False, formatDate = (\<lambda>t. t),
             unicode_lower = (\<lambda>s. s)\<rparr>"

definition readme_opts :: jsobject where
  "readme_opts =
     [(js ''root'', VStr (js ''output'')),
      (js ''port'', VNum (Fin 2345)),
      (js ''baseurl'', VStr (js ''/blog'')),
      (js ''autoindex'', VBool True),
      (js ''servedir'', VBool False)]"

definition readme_config :: config where
  "readme_config =
     \<lparr>root = js ''/srv/output'', port = 2345, baseurl = js ''blog'', autoindex = True,
      servedir = False,
      headers = [(js ''cache-control'', VStr (js ''public, max-age=604800, immutable''))],
      mimes = [], logfile = [], verbose = True, debug = False\<rparr>"

text \<open>The same directory served with listings instead of \<open>autoindex\<close>.\<close>

definition listing_config :: config where
  "listing_config = readme_config\<lparr>autoindex := False, servedir := True\<rparr>"

text \<open>A configuration the constructor accepts whose header name is not an HTTP token.\<close>

definition bad_header_config :: config where
  "bad_header_config = listing_config\<lparr>headers := [(js ''x y'', VStr (js ''1''))]\<rparr>"

text \<open>The root of the filesystem served at \<open>/\<close>, with listings.\<close>

definition slash_config :: config where
  "slash_config = listing_config\<lparr>root := js ''/'', baseurl := []\<rparr>"

text \<open>
  A filesystem under \<open>/srv\<close>: the served directory holds \<open>index.html\<close>, two more files, the
  directory \<open>docs\<close> with an \<open>index.html\<close> of its own, the directory \<open>private\<close>, which the
  server may neither list nor search, and a socket; \<open>secret.txt\<close> lies beside the served
  directory.
\<close>

definition dir_stats :: stats where
  "dir_stats = \<lparr>st_type = IsDirectory, st_size = 4096, st_ctime = js ''2021-04-12T23:42:00.000Z''\<rparr>"

definition file_stats :: stats where
  "file_stats = \<lparr>st_type = IsFile, st_size = 512, st_ctime = js ''2021-04-12T23:42:00.000Z''\<rparr>"

definition enoent :: fserror where
  "enoent = FsError (js ''ENOENT'') (js ''ENOENT: no such file or directory'')"

definition eacces :: fserror where
  "eacces = FsError (js ''EACCES'') (js ''EACCES: permission denied'')"

definition fs1 :: fsys where
  "fs1 =
     \<lparr>statSync = (\<lambda>p.
        if p = js ''/srv/output'' \<or> p = js ''/srv/output/docs'' \<or> p = js ''/srv/output/private''
          then Inr dir_stats
        else if p = js ''/srv/output/index.html'' \<or> p = js ''/srv/output/a b.txt'' \<or>
                p = js ''/srv/output/a.constructor'' \<or> p = js ''/srv/output/docs/index.html'' \<or>
                p = js ''/srv/output/../secret.txt''
          then Inr file_stats
        else if p = js ''/srv/output/private/index.html'' then Inl eacces
        else Inl enoent),
      readdirSync = (\<lambda>p.
        if p = js ''/srv/output''
          then Inr [\<lparr>d_name = js ''index.html'', d_type = IsFile\<rparr>,
                    \<lparr>d_name = js ''a b.txt'', d_type = IsFile\<rparr>,
                    \<lparr>d_name = js ''a.constructor'', d_type = IsFile\<rparr>,
                    \<lparr>d_name = js ''docs'', d_type = IsDirectory\<rparr>,
                    \<lparr>d_name = js ''private'', d_type = IsDirectory\<rparr>,
                    \<lparr>d_name = js ''sock'', d_type = IsOther\<rparr>]
        else if p = js ''/srv/output/docs'' then Inr [\<lparr>d_name = js ''index.html'', d_type = IsFile\<rparr>]
        else if p = js ''/srv/output/private'' then Inl eacces
        else Inl enoent),
      readStream = (\<lambda>p. ([js ''hello''], None)),
      openLog = (\<lambda>p. None)\<rparr>"

text \<open>The events of a request up to its first write to the response.\<close>

definition before_response :: "event list \<Rightarrow> event list" where
  "before_response evs = takeWhile (\<lambda>ev. \<not> is_response ev) evs"

fun is_etc :: "item \<Rightarrow> bool" where
  "is_etc (ItemEtc name) = True"
| "is_etc i = False"

text \<open>The items of the served directory that are files or directories, in listing order.\<close>

definition listing_items :: "item list" where
  "listing_items =
     [ItemFile (js ''index.html'') 512 (js ''2021-04-12T23:42:00.000Z''),
      ItemFile (js ''a b.txt'') 512 (js ''2021-04-12T23:42:00.000Z''),
      ItemFile (js ''a.constructor'') 512 (js ''2021-04-12T23:42:00.000Z''),
      ItemDir (js ''docs'') (Some 1) (js ''2021-04-12T23:42:00.000Z''),
      ItemDir (js ''private'') None (js ''2021-04-12T23:42:00.000Z'')]"

section \<open>Notions the properties are stated with\<close>

text \<open>Two slashes in a row somewhere in the string.\<close>

fun adjacent_slashes :: "jsstring \<Rightarrow> bool" where
  "adjacent_slashes (a # b # cs) = ((a = slash \<and> b = slash) \<or> adjacent_slashes (b # cs))"
| "adjacent_slashes cs = False"

text \<open>
  A valid relative path of an item under the root: not empty, no slash at either end, no
  two slashes in a row.
\<close>

definition valid_rel :: "jsstring \<Rightarrow> bool" where
  "valid_rel p = (p \<noteq> [] \<and> hd p \<noteq> slash \<and> last p \<noteq> slash \<and> \<not> adjacent_slashes p)"

text \<open>The segments of a path that are not empty, in order.\<close>

definition segments :: "jsstring \<Rightarrow> jsstring list" where
  "segments s = filter (\<lambda>seg. seg \<noteq> []) (split_slash s)"

text \<open>
  The location a POSIX path denotes when no segment is a symbolic link: the segments are
  followed from the root, \<open>.\<close> stays and \<open>..\<close> goes up one directory (the root is its own
  parent). The stack of directories is kept innermost first.
\<close>

definition walk :: "jsstring list \<Rightarrow> jsstring \<Rightarrow> jsstring list" where
  "walk st seg = (if seg = js ''..'' then drop 1 st else if seg = js ''.'' then st else seg # st)"

definition location :: "jsstring \<Rightarrow> jsstring list" where
  "location p = rev (foldl walk [] (segments p))"

text \<open>The path denotes the directory or something below it.\<close>

definition inside :: "jsstring \<Rightarrow> jsstring \<Rightarrow> bool" where
  "inside dir p = prefix (location dir) (location p)"

section \<open>Properties of the number formatting\<close>

lemma hundredths_floor:
  assumes "0 < d"
  shows "int (hundredths b d) = \<lfloor>(of_nat b / of_nat d :: rat) * 100 + 1 / 2\<rfloor>"
proof -
  have "(of_nat b / of_nat d :: rat) * 100 + 1 / 2
        = of_int (int (200 * b + d)) / of_int (int (2 * d))"
    using assms by (simp add: field_simps)
  then have "\<lfloor>(of_nat b / of_nat d :: rat) * 100 + 1 / 2\<rfloor> = int (200 * b + d) div int (2 * d)"
    by (simp only: floor_divide_of_int_eq)
  then show ?thesis by (simp add: hundredths_def zdiv_int)
qed

lemma hundredths_near:
  assumes "0 < d"
  shows "\<bar>(of_nat (hundredths b d) / 100 :: rat) - of_nat b / of_nat d\<bar> \<le> 1 / 200"
proof -
  define y :: rat where "y = of_nat b / of_nat d"
  define f :: rat where "f = of_int \<lfloor>y * 100 + 1 / 2\<rfloor>"
  have e: "(of_nat (hundredths b d) :: rat) = f"
    using hundredths_floor [OF assms, of b] unfolding f_def y_def by (metis of_int_of_nat_eq)
  have "f \<le> y * 100 + 1 / 2" "y * 100 + 1 / 2 < f + 1"
    unfolding f_def by linarith+
  then have "\<bar>f / 100 - y\<bar> \<le> 1 / 200" by linarith
  then show ?thesis unfolding e y_def .
qed

lemma nearest_hundredth:
  assumes "0 < d"
  shows "nat \<lfloor>(of_nat b / of_nat d :: rat) * 100 + 1 / 2\<rfloor> = hundredths b d"
  using hundredths_floor [OF assms, of b] by simp

lemma formatBytes_scaled:
  assumes "0 < d"
    and "formatBytes b = toFixed2 b d @ js '' '' @ js u"
  shows "let n = nat \<lfloor>(of_nat b / of_nat d :: rat) * 100 + 1 / 2\<rfloor>
         in formatBytes b =
              digits (n div 100) @ js ''.'' @ [48 + (n div 10) mod 10, 48 + n mod 10] @
              js '' '' @ js u"
  unfolding nearest_hundredth [OF assms(1)] Let_def assms(2)
  by (simp add: toFixed2_def fixed2_def)

text \<open>
  Claim C8. The byte-size formatter maps 512 to "512 B", 2048 to "2.00 K", 1048576 to
  "1.00 M" and 1073741824 to "1.00 G" (and 1536 to "1.50 K", 1152 to "1.13 K", 123456789 to
  "117.74 M"). Every count below 1024 is rendered as its decimal digits followed by the unit
  B. Every larger count is scaled by 1024, 1024^2 or 1024^3 according to its size and
  rendered with the unit K, M or G: with \<open>n\<close> the scaled count in hundredths, rounded to the
  nearest (halves up), the output is the digits of \<open>n div 100\<close>, a point, the two decimal
  digits of \<open>n\<close>, a space and the unit.
\<close>

theorem formatBytes_units:
  "formatBytes 512 = js ''512 B'' \<and>
   formatBytes 2048 = js ''2.00 K'' \<and>
   formatBytes 1048576 = js ''1.00 M'' \<and>
   formatBytes 1073741824 = js ''1.00 G'' \<and>
   formatBytes 1536 = js ''1.50 K'' \<and>
   formatBytes 1152 = js ''1.13 K'' \<and>
   formatBytes 123456789 = js ''117.74 M'' \<and>
   (\<forall>b. b < 1024 \<longrightarrow> formatBytes b = digits b @ js '' B'') \<and>
   (\<forall>b. 1024 \<le> b \<and> b < 1024 * 1024 \<longrightarrow>
      (let n = nat \<lfloor>(of_nat b / 1024 :: rat) * 100 + 1 / 2\<rfloor>
       in formatBytes b =
            digits (n div 100) @ js ''.'' @ [48 + (n div 10) mod 10, 48 + n mod 10] @ js '' K'')) \<and>
   (\<forall>b. 1024 * 1024 \<le> b \<and> b < 1024 * 1024 * 1024 \<longrightarrow>
      (let n = nat \<lfloor>(of_nat b / (1024 * 1024) :: rat) * 100 + 1 / 2\<rfloor>
       in formatBytes b =
            digits (n div 100) @ js ''.'' @ [48 + (n div 10) mod 10, 48 + n mod 10] @ js '' M'')) \<and>
   (\<forall>b. 1024 * 1024 * 1024 \<le> b \<longrightarrow>
      (let n = nat \<lfloor>(of_nat b / (1024 * 1024 * 1024) :: rat) * 100 + 1 / 2\<rfloor>
       in formatBytes b =
            digits (n div 100) @ js ''.'' @ [48 + (n div 10) mod 10, 48 + n mod 10] @ js '' G''))"
proof -
  have a: "formatBytes 512 = js ''512 B''"
    by (simp add: formatBytes_def js_def digits.simps)
  have b: "formatBytes 2048 = js ''2.00 K''" "formatBytes 1048576 = js ''1.00 M''"
    "formatBytes 1073741824 = js ''1.00 G''" "formatBytes 1536 = js ''1.50 K''"
    "formatBytes 1152 = js ''1.13 K''" "formatBytes 123456789 = js ''117.74 M''"
    by (simp_all add: formatBytes_def js_def toFixed2_def fixed2_def hundredths_def digits.simps)
  have e: "\<forall>b. b < 1024 \<longrightarrow> formatBytes b = digits b @ js '' B''"
    by (simp add: formatBytes_def)
  have k: "\<forall>b. 1024 \<le> b \<and> b < 1024 * 1024 \<longrightarrow>
      (let n = nat \<lfloor>(of_nat b / 1024 :: rat) * 100 + 1 / 2\<rfloor>
       in formatBytes b =
            digits (n div 100) @ js ''.'' @ [48 + (n div 10) mod 10, 48 + n mod 10] @ js '' K'')"
  proof (intro allI impI)
    fix b :: nat assume "1024 \<le> b \<and> b < 1024 * 1024"
    then have "formatBytes b = toFixed2 b 1024 @ js '' '' @ js ''K''"
      by (simp add: formatBytes_def js_def)
    from formatBytes_scaled [OF _ this]
    show "let n = nat \<lfloor>(of_nat b / 1024 :: rat) * 100 + 1 / 2\<rfloor>
       in formatBytes b =
            digits (n div 100) @ js ''.'' @ [48 + (n div 10) mod 10, 48 + n mod 10] @ js '' K''"
      by (simp add: js_def)
  qed
  have m: "\<forall>b. 1024 * 1024 \<le> b \<and> b < 1024 * 1024 * 1024 \<longrightarrow>
      (let n = nat \<lfloor>(of_nat b / (1024 * 1024) :: rat) * 100 + 1 / 2\<rfloor>
       in formatBytes b =
            digits (n div 100) @ js ''.'' @ [48 + (n div 10) mod 10, 48 + n mod 10] @ js '' M'')"
  proof (intro allI impI)
    fix b :: nat assume "1024 * 1024 \<le> b \<and> b < 1024 * 1024 * 1024"
    then have "formatBytes b = toFixed2 b (1024 * 1024) @ js '' '' @ js ''M''"
      by (simp add: formatBytes_def js_def)
    from formatBytes_scaled [OF _ this]
    show "let n = nat \<lfloor>(of_nat b / (1024 * 1024) :: rat) * 100 + 1 / 2\<rfloor>
       in formatBytes b =
            digits (n div 100) @ js ''.'' @ [48 + (n div 10) mod 10, 48 + n mod 10] @ js '' M''"
      by (simp add: js_def)
  qed
  have g: "\<forall>b. 1024 * 1024 * 1024 \<le> b \<longrightarrow>
      (let n = nat \<lfloor>(of_nat b / (1024 * 1024 * 1024) :: rat) * 100 + 1 / 2\<rfloor>
       in formatBytes b =
            digits (n div 100) @ js ''.'' @ [48 + (n div 10) mod 10, 48 + n mod 10] @ js '' G'')"
  proof (intro allI impI)
    fix b :: nat assume "1024 * 1024 * 1024 \<le> b"
    then have "formatBytes b = toFixed2 b (1024 * 1024 * 1024) @ js '' '' @ js ''G''"
      by (simp add: formatBytes_def js_def)
    from formatBytes_scaled [OF _ this]
    show "let n = nat \<lfloor>(of_nat b / (1024 * 1024 * 1024) :: rat) * 100 + 1 / 2\<rfloor>
       in formatBytes b =
            digits (n div 100) @ js ''.'' @ [48 + (n div 10) mod 10, 48 + n mod 10] @ js '' G''"
      by (simp add: js_def)
  qed
  from a b e k m g show ?thesis by blast
qed

theorem formatBytes_units_witness:
  "formatBytes 1000 = js ''1000 B'' \<and>
   formatBytes 1023 = js ''1023 B'' \<and>
   formatBytes 1587 = js ''1.55 K'' \<and>
   formatBytes 5000000 = js ''4.77 M'' \<and>
   formatBytes 3000000000 = js ''2.79 G''"
proof -
  have small: "\<forall>b. b < 1024 \<longrightarrow> formatBytes b = digits b @ js '' B''"
    using formatBytes_units by blast
  have k: "\<forall>b. 1024 \<le> b \<and> b < 1024 * 1024 \<longrightarrow>
      (let n = nat \<lfloor>(of_nat b / 1024 :: rat) * 100 + 1 / 2\<rfloor>
       in formatBytes b =
            digits (n div 100) @ js ''.'' @ [48 + (n div 10) mod 10, 48 + n mod 10] @ js '' K'')"
    using formatBytes_units by blast
  have m: "\<forall>b. 1024 * 1024 \<le> b \<and> b < 1024 * 1024 * 1024 \<longrightarrow>
      (let n = nat \<lfloor>(of_nat b / (1024 * 1024) :: rat) * 100 + 1 / 2\<rfloor>
       in formatBytes b =
            digits (n div 100) @ js ''.'' @ [48 + (n div 10) mod 10, 48 + n mod 10] @ js '' M'')"
    using formatBytes_units by blast
  have g: "\<forall>b. 1024 * 1024 * 1024 \<le> b \<longrightarrow>
      (let n = nat \<lfloor>(of_nat b / (1024 * 1024 * 1024) :: rat) * 100 + 1 / 2\<rfloor>
       in formatBytes b =
            digits (n div 100) @ js ''.'' @ [48 + (n div 10) mod 10, 48 + n mod 10] @ js '' G'')"
    using formatBytes_units by blast
  have n: "nat \<lfloor>(of_nat 1587 / 1024 :: rat) * 100 + 1 / 2\<rfloor> = 155"
    "nat \<lfloor>(of_nat 5000000 / (1024 * 1024) :: rat) * 100 + 1 / 2\<rfloor> = 477"
    "nat \<lfloor>(of_nat 3000000000 / (1024 * 1024 * 1024) :: rat) * 100 + 1 / 2\<rfloor> = 279"
    using nearest_hundredth [of 1024 1587] nearest_hundredth [of "1024 * 1024" 5000000]
      nearest_hundredth [of "1024 * 1024 * 1024" 3000000000]
    by (simp_all add: hundredths_def)
  have "(1000::nat) < 1024" "(1023::nat) < 1024" by simp_all
  with small have "formatBytes 1000 = digits 1000 @ js '' B''"
    "formatBytes 1023 = digits 1023 @ js '' B''" by blast+
  then have 1: "formatBytes 1000 = js ''1000 B''" "formatBytes 1023 = js ''1023 B''"
    by (simp_all add: js_def digits.simps)
  have "(1024::nat) \<le> 1587 \<and> (1587::nat) < 1024 * 1024" by simp
  with k have "let n = nat \<lfloor>(of_nat 1587 / 1024 :: rat) * 100 + 1 / 2\<rfloor>
       in formatBytes 1587 =
            digits (n div 100) @ js ''.'' @ [48 + (n div 10) mod 10, 48 + n mod 10] @ js '' K''"
    by blast
  then have 2: "formatBytes 1587 = js ''1.55 K''"
    unfolding n Let_def by (simp add: js_def digits.simps)
  have "(1024::nat) * 1024 \<le> 5000000 \<and> (5000000::nat) < 1024 * 1024 * 1024" by simp
  with m have "let n = nat \<lfloor>(of_nat 5000000 / (1024 * 1024) :: rat) * 100 + 1 / 2\<rfloor>
       in formatBytes 5000000 =
            digits (n div 100) @ js ''.'' @ [48 + (n div 10) mod 10, 48 + n mod 10] @ js '' M''"
    by blast
  then have 3: "formatBytes 5000000 = js ''4.77 M''"
    unfolding n Let_def by (simp add: js_def digits.simps)
  have "(1024::nat) * 1024 * 1024 \<le> 3000000000" by simp
  with g have "let n = nat \<lfloor>(of_nat 3000000000 / (1024 * 1024 * 1024) :: rat) * 100 + 1 / 2\<rfloor>
       in formatBytes 3000000000 =
            digits (n div 100) @ js ''.'' @ [48 + (n div 10) mod 10, 48 + n mod 10] @ js '' G''"
    by blast
  then have 4: "formatBytes 3000000000 = js ''2.79 G''"
    unfolding n Let_def by (simp add: js_def digits.simps)
  from 1 2 3 4 show ?thesis by blast
qed

section \<open>Config: the two flags\<close>

lemma map_of_assign:
  "k \<noteq> js ''__proto__'' \<or> k \<in> fst ` set ps \<Longrightarrow> map_of (assign k v ps) = (map_of ps)(k \<mapsto> v)"
proof (induction ps)
  case Nil
  then show ?case by simp
next
  case (Cons p ps)
  obtain a b where p: "p = (a, b)" by (cases p)
  show ?case
  proof (cases "k = a")
    case True
    then show ?thesis unfolding p by (auto intro!: ext)
  next
    case False
    with Cons.prems have "k \<noteq> js ''__proto__'' \<or> k \<in> fst ` set ps" unfolding p by auto
    from Cons.IH [OF this] False show ?thesis unfolding p by (auto intro!: ext)
  qed
qed

lemma merge_step:
  assumes "merge ((key, v) # opts) this = Inr this'"
  shows "merge opts (assign key v this) = Inr this' \<and>
         map_of (assign key v this) = (map_of this)(key \<mapsto> v)"
proof -
  from assms obtain cur where c: "map_of this key = Some cur"
    and m: "merge opts (assign key v this) = Inr this'"
    by (auto split: option.splits if_splits)
  from c have "key \<in> fst ` set this" by (force dest: map_of_SomeD)
  with m map_of_assign show ?thesis by blast
qed

lemma merge_other:
  "merge opts this = Inr this' \<Longrightarrow> k \<notin> fst ` set opts \<Longrightarrow> map_of this' k = map_of this k"
proof (induction opts arbitrary: this)
  case Nil
  then show ?case by simp
next
  case (Cons kv opts)
  obtain key v where kv: "kv = (key, v)" by (cases kv)
  from merge_step [OF Cons.prems(1) [unfolded kv]]
  have m: "merge opts (assign key v this) = Inr this'"
    and ma: "map_of (assign key v this) = (map_of this)(key \<mapsto> v)" by blast+
  from Cons.prems(2) have "k \<noteq> key" "k \<notin> fst ` set opts" unfolding kv by auto
  with Cons.IH [OF m] show ?case by (simp add: ma)
qed

lemma merge_given:
  "merge opts this = Inr this' \<Longrightarrow> distinct (map fst opts) \<Longrightarrow> (k, v) \<in> set opts \<Longrightarrow>
   map_of this' k = Some v"
proof (induction opts arbitrary: this)
  case Nil
  then show ?case by simp
next
  case (Cons kv opts)
  obtain key w where kv: "kv = (key, w)" by (cases kv)
  from merge_step [OF Cons.prems(1) [unfolded kv]]
  have m: "merge opts (assign key w this) = Inr this'"
    and ma: "map_of (assign key w this) = (map_of this)(key \<mapsto> w)" by blast+
  show ?case
  proof (cases "(k, v) \<in> set opts")
    case True
    with Cons.IH [OF m] Cons.prems(2) show ?thesis by simp
  next
    case False
    with Cons.prems(3) have e: "key = k" "w = v" unfolding kv by auto
    with Cons.prems(2) have "k \<notin> fst ` set opts" unfolding kv by auto
    from merge_other [OF m this] ma show ?thesis unfolding e by simp
  qed
qed

lemma Config_new_flags:
  "Config_new e opts = Inr c \<Longrightarrow> \<not> (autoindex c \<and> servedir c)"
  unfolding Config_new_def
  by (auto split: sum.splits if_splits)

lemma Config_new_both:
  assumes "merge opts defaults = Inr this"
    and "bool_field this ''autoindex''" and "bool_field this ''servedir''"
  shows "\<exists>err. Config_new e opts = Inl err"
  using assms unfolding Config_new_def by (simp split: sum.splits)

lemma defaults_servedir: "map_of defaults (js ''servedir'') = Some (VBool True)"
  by (simp add: defaults_def js_def)

lemma readme_config_accepted: "Config_new env0 readme_opts = Inr readme_config"
  by (simp add: Config_new_def readme_opts_def readme_config_def defaults_def js_def env0_def
      str_field_def bool_field_def num_field_def obj_field_def valid_port_def port_number_def
      check_values_def resolve_path_def trim_slashes_def strip_leading_slash_def
      strip_trailing_slash_def slash_def)

text \<open>
  Claim C7. No configuration input is accepted with both flags true: whenever the constructor
  of \<open>Config\<close> returns a configuration, \<open>autoindex\<close> and \<open>servedir\<close> are not both set in it. An
  input that sets \<open>autoindex\<close> to true and sets \<open>servedir\<close> to true, or leaves it at its default
  (true), makes the constructor of \<open>Config\<close> fail, and with it the constructor of the server,
  which builds the configuration before anything else: no server instance exists.
\<close>

theorem both_flags_rejected:
  "(\<forall>c. Config_new e opts = Inr c \<longrightarrow> \<not> (autoindex c \<and> servedir c)) \<and>
   (distinct (map fst opts) \<and> (js ''autoindex'', VBool True) \<in> set opts \<and>
    ((js ''servedir'', VBool True) \<in> set opts \<or> js ''servedir'' \<notin> fst ` set opts) \<longrightarrow>
      (\<exists>err. Config_new e opts = Inl err) \<and> (\<exists>err. RXFS_new e fs opts = Inl (ConfigError err)))"
proof (intro conjI allI impI)
  fix c assume "Config_new e opts = Inr c"
  then show "\<not> (autoindex c \<and> servedir c)" by (rule Config_new_flags)
next
  assume h: "distinct (map fst opts) \<and> (js ''autoindex'', VBool True) \<in> set opts \<and>
    ((js ''servedir'', VBool True) \<in> set opts \<or> js ''servedir'' \<notin> fst ` set opts)"
  have r: "\<exists>err. Config_new e opts = Inl err"
  proof (cases "merge opts defaults")
    case (Inl err)
    then show ?thesis by (simp add: Config_new_def)
  next
    case (Inr this)
    from merge_given [OF Inr] h have "map_of this (js ''autoindex'') = Some (VBool True)" by blast
    then have a: "bool_field this ''autoindex''" by (simp add: bool_field_def)
    from h have "map_of this (js ''servedir'') = Some (VBool True)"
    proof (elim conjE disjE)
      assume "distinct (map fst opts)" "(js ''servedir'', VBool True) \<in> set opts"
      with merge_given [OF Inr] show ?thesis by blast
    next
      assume "js ''servedir'' \<notin> fst ` set opts"
      from merge_other [OF Inr this] show ?thesis by (simp add: defaults_servedir)
    qed
    then have b: "bool_field this ''servedir''" by (simp add: bool_field_def)
    from Config_new_both [OF Inr a b] show ?thesis .
  qed
  then show "\<exists>err. Config_new e opts = Inl err" .
  from r show "\<exists>err. RXFS_new e fs opts = Inl (ConfigError err)"
    by (auto simp: RXFS_new_def)
qed

theorem both_flags_rejected_witness:
  "Config_new env0 readme_opts = Inr readme_config \<and>
   \<not> (autoindex readme_config \<and> servedir readme_config) \<and>
   (\<exists>err. Config_new env0 [(js ''autoindex'', VBool True), (js ''servedir'', VBool True)] = Inl err) \<and>
   (\<exists>err. Config_new env0 [(js ''autoindex'', VBool True)] = Inl err)"
proof -
  have a: "\<not> (autoindex readme_config \<and> servedir readme_config)"
    using both_flags_rejected [of env0 readme_opts] readme_config_accepted by blast
  have b: "\<exists>err. Config_new env0 [(js ''autoindex'', VBool True), (js ''servedir'', VBool True)] = Inl err"
    using both_flags_rejected [of env0 "[(js ''autoindex'', VBool True), (js ''servedir'', VBool True)]"]
    by (simp add: js_def)
  have c: "\<exists>err. Config_new env0 [(js ''autoindex'', VBool True)] = Inl err"
    using both_flags_rejected [of env0 "[(js ''autoindex'', VBool True)]"]
    by (simp add: js_def)
  from a b c readme_config_accepted show ?thesis by blast
qed


section \<open>Evaluation of concrete requests\<close>

lemmas string_defs = js_def slash_def percent_def dot_def Let_def

lemmas fs1_defs = fs1_def dir_stats_def file_stats_def enoent_def eacces_def

lemmas resolve_defs = R_new_def rel_of_url_def abs_of_rel_def decoded_def decodeURIComponent_def
  trim_slashes_def strip_leading_slash_def strip_trailing_slash_def startsWith_def
  existsSync_def hexval_def copy_headers_def

lemmas header_defs = writeHead_def valid_header_name_def token_char_def header_char_def
  following_def

lemma padStart3_short:
  "padStart3 [] = [48, 48, 48]" "padStart3 [a] = [48, 48, a]" "padStart3 [a, b] = [48, a, b]"
  by (simp_all add: padStart3_def eval_nat_numeral)

lemma padStart3_long: "3 \<le> length s \<Longrightarrow> padStart3 s = s"
  by (simp add: padStart3_def)

lemma digits_405: "digits 405 = js ''405''"
  by (simp add: digits.simps js_def)

text \<open>The headers of the concrete configurations, as \<open>sendStatus\<close> writes them.\<close>

lemma readme_headers:
  "copy_headers (headers readme_config) =
     [(js ''cache-control'', VStr (js ''public, max-age=604800, immutable''))]"
  "copy_headers (headers listing_config) =
     [(js ''cache-control'', VStr (js ''public, max-age=604800, immutable''))]"
  by (simp_all add: copy_headers_def listing_config_def readme_config_def js_def)

lemma readme_headers_plain:
  "assign (js ''content-type'') (VStr (js ''text/plain''))
     [(js ''cache-control'', VStr (js ''public, max-age=604800, immutable''))] =
     [(js ''cache-control'', VStr (js ''public, max-age=604800, immutable'')),
      (js ''content-type'', VStr (js ''text/plain''))]"
  "check_headers
     [(js ''cache-control'', VStr (js ''public, max-age=604800, immutable'')),
      (js ''content-type'', VStr (js ''text/plain''))] = None"
  by (simp_all add: valid_header_name_def token_char_def header_char_def js_def)

lemma readme_headers_405:
  "assign (js ''content-type'') (VStr (js ''text/plain''))
     (copy_headers (headers readme_config)) =
     [(js ''cache-control'', VStr (js ''public, max-age=604800, immutable'')),
      (js ''content-type'', VStr (js ''text/plain''))]"
  "assign (js ''content-type'') (VStr (js ''text/plain''))
     (copy_headers (headers listing_config)) =
     [(js ''cache-control'', VStr (js ''public, max-age=604800, immutable'')),
      (js ''content-type'', VStr (js ''text/plain''))]"
  by (simp_all only: readme_headers readme_headers_plain)

lemma readme_headers_accepted:
  "check_headers (assign (js ''content-type'') (VStr (js ''text/plain''))
                    (copy_headers (headers readme_config))) = None"
  "check_headers (assign (js ''content-type'') (VStr (js ''text/plain''))
                    (copy_headers (headers listing_config))) = None"
  by (simp_all only: readme_headers readme_headers_plain)

section \<open>Requests with another method than GET\<close>

text \<open>
  Claim C3, as the code has it. Let the method of a request not be GET. The request is
  resolved before its method is looked at, so its events are, in this order: the log line
  of the request; with \<open>autoindex\<close> enabled (and only then) the existence check of
  \<open>index.html\<close> under the resolved path, made in the constructor of \<open>R\<close>; the log line of
  the response; and, when \<open>writeHead\<close> accepts the configured headers, the head with
  status 405 and the body naming the method, with nothing thrown. No other access to the
  served filesystem is made. When \<open>writeHead\<close> refuses a configured header, its exception
  leaves \<open>handle\<close> and nothing is written. (The two log lines, which go to the log file when
  one is configured, are events of their own and are not counted as accesses.)
\<close>

theorem non_get_405:
  "req_method req \<noteq> js ''GET'' \<longrightarrow>
     (check_headers (assign (js ''content-type'') (VStr (js ''text/plain''))
                       (copy_headers (headers (config this)))) = None \<longrightarrow>
        events (handle e fs this req) =
          Log (js ''REQ #'' @ padStart3 (digits (reqcount this)) @ js '' '' @ req_method req @
               js '' '' @ url req) #
          (if autoindex (config this)
           then [ExistsSync (abs_of_rel (config this) (rel_of_url (config this) (url req))
                             @ js ''/index.html'')]
           else []) @
          [Log (js ''RES #'' @ padStart3 (digits (reqcount this)) @
                js '' [status] 405 method not allowed: '' @ req_method req),
           WriteHead 405 (assign (js ''content-type'') (VStr (js ''text/plain''))
                            (copy_headers (headers (config this)))),
           End (Some (js ''405 : method not allowed: '' @ req_method req))] \<and>
        uncaught (handle e fs this req) = None) \<and>
     (\<forall>x. check_headers (assign (js ''content-type'') (VStr (js ''text/plain''))
                           (copy_headers (headers (config this)))) = Some x \<longrightarrow>
        events (handle e fs this req) =
          Log (js ''REQ #'' @ padStart3 (digits (reqcount this)) @ js '' '' @ req_method req @
               js '' '' @ url req) #
          (if autoindex (config this)
           then [ExistsSync (abs_of_rel (config this) (rel_of_url (config this) (url req))
                             @ js ''/index.html'')]
           else []) @
          [Log (js ''RES #'' @ padStart3 (digits (reqcount this)) @
                js '' [status] 405 method not allowed: '' @ req_method req)] \<and>
        uncaught (handle e fs this req) = Some x)"
  by (auto simp: handle_def dispatch_def R_new_def sendStatus_def writeHead_def Let_def
      digits_405 js_def)

theorem non_get_405_witness:
  "events (handle env0 fs1 \<lparr>config = readme_config, reqcount = 7\<rparr>
             \<lparr>req_method = js ''DELETE'', url = js ''/blog/docs''\<rparr>) =
     [Log (js ''REQ #007 DELETE /blog/docs''),
      ExistsSync (js ''/srv/output/docs/index.html''),
      Log (js ''RES #007 [status] 405 method not allowed: DELETE''),
      WriteHead 405 [(js ''cache-control'', VStr (js ''public, max-age=604800, immutable'')),
                     (js ''content-type'', VStr (js ''text/plain''))],
      End (Some (js ''405 : method not allowed: DELETE''))] \<and>
   events (handle env0 fs1 \<lparr>config = listing_config, reqcount = 7\<rparr>
             \<lparr>req_method = js ''POST'', url = js ''/blog/''\<rparr>) =
     [Log (js ''REQ #007 POST /blog/''),
      Log (js ''RES #007 [status] 405 method not allowed: POST''),
      WriteHead 405 [(js ''cache-control'', VStr (js ''public, max-age=604800, immutable'')),
                     (js ''content-type'', VStr (js ''text/plain''))],
      End (Some (js ''405 : method not allowed: POST''))] \<and>
   uncaught (handle env0 fs1 \<lparr>config = bad_header_config, reqcount = 7\<rparr>
               \<lparr>req_method = js ''POST'', url = js ''/blog/''\<rparr>) =
     Some (InvalidHeaderName (js ''x y''))"
proof -
  have m: "js ''DELETE'' \<noteq> js ''GET''" "js ''POST'' \<noteq> js ''GET''"
    by (simp_all add: js_def)
  have a: "autoindex readme_config" "\<not> autoindex listing_config"
    by (simp_all add: listing_config_def readme_config_def)
  have p: "abs_of_rel readme_config (rel_of_url readme_config (js ''/blog/docs'')) @
             js ''/index.html'' = js ''/srv/output/docs/index.html''"
    by (simp add: readme_config_def resolve_defs string_defs)
  have b: "check_headers (assign (js ''content-type'') (VStr (js ''text/plain''))
                            (copy_headers (headers bad_header_config))) =
           Some (InvalidHeaderName (js ''x y''))"
    by (simp add: bad_header_config_def listing_config_def readme_config_def copy_headers_def
        valid_header_name_def token_char_def js_def)
  have d: "padStart3 (digits 7) = js ''007''"
    by (simp add: padStart3_short digits.simps js_def)
  have j: "js ''REQ #'' @ js ''007'' @ js '' '' @ js ''DELETE'' @ js '' '' @ js ''/blog/docs'' =
             js ''REQ #007 DELETE /blog/docs''"
    "js ''RES #'' @ js ''007'' @ js '' [status] 405 method not allowed: '' @ js ''DELETE'' =
             js ''RES #007 [status] 405 method not allowed: DELETE''"
    "js ''405 : method not allowed: '' @ js ''DELETE'' = js ''405 : method not allowed: DELETE''"
    "js ''REQ #'' @ js ''007'' @ js '' '' @ js ''POST'' @ js '' '' @ js ''/blog/'' =
             js ''REQ #007 POST /blog/''"
    "js ''RES #'' @ js ''007'' @ js '' [status] 405 method not allowed: '' @ js ''POST'' =
             js ''RES #007 [status] 405 method not allowed: POST''"
    "js ''405 : method not allowed: '' @ js ''POST'' = js ''405 : method not allowed: POST''"
    by (simp_all add: js_def)
  have h: "check_headers (assign (js ''content-type'') (VStr (js ''text/plain''))
              (copy_headers (headers (config \<lparr>config = readme_config, reqcount = 7\<rparr>)))) = None"
    "check_headers (assign (js ''content-type'') (VStr (js ''text/plain''))
              (copy_headers (headers (config \<lparr>config = listing_config, reqcount = 7\<rparr>)))) = None"
    by (simp_all only: rxfs.select_convs readme_headers_accepted)
  from non_get_405 [of "\<lparr>req_method = js ''DELETE'', url = js ''/blog/docs''\<rparr>"
                      "\<lparr>config = readme_config, reqcount = 7\<rparr>" env0 fs1, unfolded h]
  have 1: "events (handle env0 fs1 \<lparr>config = readme_config, reqcount = 7\<rparr>
             \<lparr>req_method = js ''DELETE'', url = js ''/blog/docs''\<rparr>) =
     [Log (js ''REQ #007 DELETE /blog/docs''),
      ExistsSync (js ''/srv/output/docs/index.html''),
      Log (js ''RES #007 [status] 405 method not allowed: DELETE''),
      WriteHead 405 [(js ''cache-control'', VStr (js ''public, max-age=604800, immutable'')),
                     (js ''content-type'', VStr (js ''text/plain''))],
      End (Some (js ''405 : method not allowed: DELETE''))]"
    by (simp add: m a p d j readme_headers_405)
  from non_get_405 [of "\<lparr>req_method = js ''POST'', url = js ''/blog/''\<rparr>"
                      "\<lparr>config = listing_config, reqcount = 7\<rparr>" env0 fs1, unfolded h]
  have 2: "events (handle env0 fs1 \<lparr>config = listing_config, reqcount = 7\<rparr>
             \<lparr>req_method = js ''POST'', url = js ''/blog/''\<rparr>) =
     [Log (js ''REQ #007 POST /blog/''),
      Log (js ''RES #007 [status] 405 method not allowed: POST''),
      WriteHead 405 [(js ''cache-control'', VStr (js ''public, max-age=604800, immutable'')),
                     (js ''content-type'', VStr (js ''text/plain''))],
      End (Some (js ''405 : method not allowed: POST''))]"
    by (simp add: m a d j readme_headers_405)
  from non_get_405 [of "\<lparr>req_method = js ''POST'', url = js ''/blog/''\<rparr>"
                      "\<lparr>config = bad_header_config, reqcount = 7\<rparr>" env0 fs1]
  have 3: "uncaught (handle env0 fs1 \<lparr>config = bad_header_config, reqcount = 7\<rparr>
               \<lparr>req_method = js ''POST'', url = js ''/blog/''\<rparr>) =
     Some (InvalidHeaderName (js ''x y''))"
    by (simp add: m b)
  from 1 2 3 show ?thesis by blast
qed

text \<open>
  Claim C3 as stated fails: with the configuration of the README (\<open>autoindex\<close> enabled), a
  POST request makes an access to the filesystem before the first write to the response.
\<close>

theorem non_get_fs_access_counterexample:
  "req_method \<lparr>req_method = js ''POST'', url = js ''/blog/''\<rparr> \<noteq> js ''GET'' \<and>
   filter is_fs_access
     (before_response
        (events (handle env0 fs1 \<lparr>config = readme_config, reqcount = 7\<rparr>
                   \<lparr>req_method = js ''POST'', url = js ''/blog/''\<rparr>))) =
     [ExistsSync (js ''/srv/output/index.html'')]"
  by (simp add: handle_def dispatch_def sendStatus_def readme_config_def before_response_def
      resolve_defs header_defs fs1_defs string_defs)

section \<open>An unreadable directory\<close>

text \<open>
  An error of the filesystem can leave \<open>handle\<close> only from a directory listing: everywhere
  else it is caught and answered.
\<close>

lemma check_headers_not_fs: "check_headers hs \<noteq> Some (FsException err)"
  by (induction hs) (auto split: if_splits)

lemma writeHead_not_fs: "snd (writeHead status hs rest) \<noteq> Some (FsException err)"
  using check_headers_not_fs [of hs err] by (auto simp: writeHead_def split: option.splits)

lemma sendStatus_not_fs: "snd (sendStatus r status msg) \<noteq> Some (FsException err)"
  using writeHead_not_fs [of status _ _ err]
  by (auto simp: sendStatus_def split: prod.splits) (metis snd_conv)

lemma sendFile_not_fs: "snd (sendFile e c fs r) \<noteq> Some (FsException err)"
  unfolding sendFile_def by (rule writeHead_not_fs)

lemma fs_exception_needs_listing:
  assumes "uncaught (handle e fs this req) = Some (FsException err)"
  shows "servedir (config this) \<and> req_method req = js ''GET''"
proof -
  obtain r resolving where rn: "R_new (config this) fs req (padStart3 (digits (reqcount this)))
      = (r, resolving)" by (cases "R_new (config this) fs req (padStart3 (digits (reqcount this)))")
  from assms have d: "snd (dispatch e (config this) fs req r) = Some (FsException err)"
    by (simp add: handle_def Let_def rn split: prod.splits)
  show ?thesis
  proof (rule ccontr)
    assume "\<not> (servedir (config this) \<and> req_method req = js ''GET'')"
    then have "snd (dispatch e (config this) fs req r) \<noteq> Some (FsException err)"
      using sendStatus_not_fs sendFile_not_fs
      by (auto simp: dispatch_def following_def split: sum.splits)
    with d show False by simp
  qed
qed

text \<open>
  Claim C2, the code at the failing input. With directory listings enabled, a GET request
  for a directory that cannot be read makes \<open>fs.readdirSync\<close> throw inside \<open>sendDir\<close>, where
  no \<open>try\<close> encloses it: the exception leaves \<open>handle\<close> uncaught and nothing is written to
  the response.
\<close>

theorem unreadable_directory_uncaught:
  "uncaught (handle env0 fs1 \<lparr>config = listing_config, reqcount = 0\<rparr>
               \<lparr>req_method = js ''GET'', url = js ''/blog/private''\<rparr>) =
     Some (FsException eacces) \<and>
   events (handle env0 fs1 \<lparr>config = listing_config, reqcount = 0\<rparr>
             \<lparr>req_method = js ''GET'', url = js ''/blog/private''\<rparr>) =
     [Log (js ''REQ #000 GET /blog/private''), StatSync (js ''/srv/output/private''),
      ReaddirSync (js ''/srv/output/private'')]"
  by (simp add: handle_def dispatch_def sendDir_def listing_config_def readme_config_def
      resolve_defs header_defs fs1_defs string_defs padStart3_short digits.simps)

section \<open>Entries that are neither files nor directories\<close>

lemma item_rows_filter:
  "item_rows e base rel (filter (\<lambda>i. \<not> is_etc i) items) acc = item_rows e base rel items acc"
  by (induction e base rel items acc rule: item_rows.induct)
     (auto simp: Let_def split: option.splits)

lemma dirview_ignores_etc:
  "dirview e c rel (filter (\<lambda>i. \<not> is_etc i) items) = dirview e c rel items"
  by (simp add: dirview_def item_rows_filter)

lemma listing_with_socket:
  "filter is_response
     (events (handle env0 fs1 \<lparr>config = listing_config, reqcount = 0\<rparr>
                \<lparr>req_method = js ''GET'', url = js ''/blog/''\<rparr>)) =
     [WriteHead 200 [(js ''cache-control'', VStr (js ''public, max-age=604800, immutable'')),
                     (js ''content-type'', VStr (js ''text/html''))],
      End (Some (dirview env0 listing_config [] (listing_items @ [ItemEtc (js ''sock'')])))]"
  by (simp add: handle_def dispatch_def sendDir_def listing_config_def readme_config_def
      listing_items_def resolve_defs header_defs fs1_defs string_defs)

text \<open>
  Claim C5, the code at the failing input. The served directory holds a socket besides its
  files and directories. The page sent for it is the page of the files and directories
  alone: the socket has no row. In general \<open>dirview\<close> renders the same page whether the
  entries that are neither files nor directories are in the list or not.
\<close>

theorem other_entries_not_rendered:
  "filter is_response
     (events (handle env0 fs1 \<lparr>config = listing_config, reqcount = 0\<rparr>
                \<lparr>req_method = js ''GET'', url = js ''/blog/''\<rparr>)) =
     [WriteHead 200 [(js ''cache-control'', VStr (js ''public, max-age=604800, immutable'')),
                     (js ''content-type'', VStr (js ''text/html''))],
      End (Some (dirview env0 listing_config [] listing_items))] \<and>
   dirview e c rel (filter (\<lambda>i. \<not> is_etc i) items) = dirview e c rel items"
proof -
  have "dirview env0 listing_config [] (listing_items @ [ItemEtc (js ''sock'')]) =
        dirview env0 listing_config [] listing_items"
    using dirview_ignores_etc [of env0 listing_config "[]" "listing_items @ [ItemEtc (js ''sock'')]"]
    by (simp add: listing_items_def)
  with listing_with_socket dirview_ignores_etc show ?thesis by simp
qed

section \<open>The content type of a file\<close>

lemma js_eq_iff: "js a = js b \<longleftrightarrow> a = b"
  unfolding js_def by (simp add: inj_map_eq_map inj_on_def)

lemma map_of_js:
  "map_of (map (\<lambda>(k, v). (js k, VStr (js v))) xs) (js key) =
   map_option (\<lambda>v. VStr (js v)) (map_of xs key)"
  by (induction xs) (auto simp: js_eq_iff)

lemma map_of_builtin:
  assumes "key \<noteq> ''log''" and "key \<noteq> ''js''"
  shows "map_of mimes_builtin (js key) = map_option (\<lambda>v. VStr (js v)) (map_of mimes_literal key)"
proof -
  have "js ''log'' \<noteq> js ''__proto__''" "js ''js'' \<noteq> js ''__proto__''"
    by (simp_all add: js_eq_iff)
  with assms show ?thesis
    by (simp add: mimes_builtin_def map_of_assign map_of_js js_eq_iff)
qed

lemma builtin_constructor: "map_of mimes_builtin (js ''constructor'') = None"
  by (simp add: map_of_builtin mimes_literal_def)

lemma builtin_txt: "map_of mimes_builtin (js ''txt'') = Some (VStr (js ''text/plain''))"
  by (simp add: map_of_builtin mimes_literal_def)

lemma content_type_unmapped:
  assumes "map_of (mimes c) (toLowerCase (unicode_lower e) (drop 1 (path_ext p))) = None"
    and "map_of mimes_builtin (toLowerCase (unicode_lower e) (drop 1 (path_ext p))) = None"
    and "object_prototype (toLowerCase (unicode_lower e) (drop 1 (path_ext p))) = VUndefined"
  shows "content_type e c p = VStr (js ''application/octet-stream'')"
  using assms by (simp add: content_type_def get_def Let_def)

text \<open>
  Claim C6, the code at the failing input. The extension \<open>constructor\<close> is a key neither of
  the configured overrides nor of the built-in table, but both objects inherit a property of
  that name from \<open>Object.prototype\<close>: the lookup in the overrides returns the function
  \<open>Object\<close>, which is truthy, and the file is sent with that value as its content type,
  not with \<open>application/octet-stream\<close>. The extension \<open>__proto__\<close> gives the object
  \<open>Object.prototype\<close> in the same way. (By \<open>content_type_unmapped\<close> the default is what an
  extension gets that is a key of neither map and names no inherited property.)
\<close>

theorem constructor_extension_content_type:
  "map_of (mimes readme_config) (js ''constructor'') = None \<and>
   map_of mimes_builtin (js ''constructor'') = None \<and>
   toLowerCase (unicode_lower env0) (drop 1 (path_ext (js ''/srv/output/a.constructor''))) =
     js ''constructor'' \<and>
   content_type env0 readme_config (js ''/srv/output/a.constructor'') = VFun (js ''Object'') \<and>
   content_type env0 readme_config (js ''/srv/output/b.__proto__'') = VObj [] \<and>
   filter is_response
     (events (handle env0 fs1 \<lparr>config = readme_config, reqcount = 0\<rparr>
                \<lparr>req_method = js ''GET'', url = js ''/blog/a.constructor''\<rparr>)) =
     [WriteHead 200 [(js ''cache-control'', VStr (js ''public, max-age=604800, immutable'')),
                     (js ''content-type'', VFun (js ''Object''))],
      Write (js ''hello''), End None]"
proof -
  have 1: "map_of (mimes readme_config) (js ''constructor'') = None"
    by (simp add: readme_config_def)
  have 2: "toLowerCase (unicode_lower env0) (drop 1 (path_ext (js ''/srv/output/a.constructor'')))
             = js ''constructor''"
    by (simp add: path_ext_def basename_def toLowerCase_def string_defs)
  have 3: "content_type env0 readme_config (js ''/srv/output/a.constructor'') = VFun (js ''Object'')"
    "content_type env0 readme_config (js ''/srv/output/b.__proto__'') = VObj []"
    by (simp_all add: readme_config_def content_type_def path_ext_def basename_def
        toLowerCase_def get_def object_prototype_def string_defs)
  have 4: "filter is_response
     (events (handle env0 fs1 \<lparr>config = readme_config, reqcount = 0\<rparr>
                \<lparr>req_method = js ''GET'', url = js ''/blog/a.constructor''\<rparr>)) =
     [WriteHead 200 [(js ''cache-control'', VStr (js ''public, max-age=604800, immutable'')),
                     (js ''content-type'', VFun (js ''Object''))],
      Write (js ''hello''), End None]"
    by (simp add: handle_def dispatch_def sendFile_def readme_config_def content_type_def
        path_ext_def basename_def toLowerCase_def get_def object_prototype_def
        resolve_defs header_defs fs1_defs string_defs)
  from 1 builtin_constructor 2 3 4 show ?thesis by blast
qed

theorem constructor_extension_content_type_witness:
  "content_type env0 readme_config (js ''/srv/output/a.constructor'') \<noteq>
     VStr (js ''application/octet-stream'') \<and>
   toLowerCase (unicode_lower env0) (drop 1 (path_ext (js ''/srv/output/a.constructor''))) =
     js ''constructor''"
  using constructor_extension_content_type by simp

section \<open>Properties of the slash normalisation\<close>

lemma remove_first_prefix: "remove_first b (b @ slash # p) = slash # p"
  by (cases b) simp_all

lemma collapse_no_adjacent: "\<not> adjacent_slashes s \<Longrightarrow> collapse_slashes s = s"
  by (induction s rule: collapse_slashes.induct) auto

lemma adjacent_Cons: "adjacent_slashes (c # s) = ((c = slash \<and> s \<noteq> [] \<and> hd s = slash) \<or> adjacent_slashes s)"
  by (cases s) auto

lemma adjacent_snoc:
  "adjacent_slashes (s @ [c]) = ((c = slash \<and> s \<noteq> [] \<and> last s = slash) \<or> adjacent_slashes s)"
  by (induction s rule: adjacent_slashes.induct) auto

lemma collapse_Cons_hd:
  "collapse_slashes (a # s) \<noteq> [] \<and> hd (collapse_slashes (a # s)) = a"
  by (induction "a # s" arbitrary: a s rule: collapse_slashes.induct) auto

lemma collapse_not_adjacent: "\<not> adjacent_slashes (collapse_slashes s)"
proof (induction s rule: collapse_slashes.induct)
  case (1 a b cs)
  then show ?case using collapse_Cons_hd [of b cs] by (auto simp: adjacent_Cons)
qed simp_all

lemma trim_valid: "valid_rel p \<Longrightarrow> trim_slashes (slash # p) = p"
  by (cases p) (auto simp: valid_rel_def trim_slashes_def strip_leading_slash_def
      strip_trailing_slash_def collapse_no_adjacent adjacent_Cons)

lemma strip_leading_valid:
  assumes "\<not> adjacent_slashes u"
  shows "\<not> adjacent_slashes (strip_leading_slash u)"
    and "strip_leading_slash u \<noteq> [] \<longrightarrow> hd (strip_leading_slash u) \<noteq> slash"
  using assms unfolding strip_leading_slash_def
  by (auto simp: adjacent_Cons split: list.splits)

lemma strip_trailing_valid:
  assumes "\<not> adjacent_slashes v" and "v \<noteq> [] \<longrightarrow> hd v \<noteq> slash"
  shows "strip_trailing_slash v = [] \<or> valid_rel (strip_trailing_slash v)"
proof (cases "v \<noteq> [] \<and> last v = slash")
  case True
  define w where "w = butlast v"
  from True have e: "v = w @ [slash]" unfolding w_def by (metis append_butlast_last_id)
  have "strip_trailing_slash v = w"
    using True unfolding w_def strip_trailing_slash_def by simp
  moreover have "w = [] \<or> valid_rel w"
  proof -
    have "\<not> adjacent_slashes (w @ [slash])" using assms(1) e by simp
    then have a: "\<not> adjacent_slashes w" "w \<noteq> [] \<longrightarrow> last w \<noteq> slash"
      unfolding adjacent_snoc by auto
    have "w \<noteq> [] \<longrightarrow> hd w \<noteq> slash" using assms(2) e by (cases w) auto
    with a show ?thesis by (auto simp: valid_rel_def)
  qed
  ultimately show ?thesis by simp
next
  case False
  then have "strip_trailing_slash v = v" unfolding strip_trailing_slash_def by auto
  with assms False show ?thesis by (auto simp: valid_rel_def)
qed

lemma trim_slashes_valid: "trim_slashes s = [] \<or> valid_rel (trim_slashes s)"
  unfolding trim_slashes_def
  using strip_trailing_valid [OF strip_leading_valid [OF collapse_not_adjacent]] by blast

section \<open>Properties of the segments\<close>

lemma split_slash_not_Nil: "split_slash s \<noteq> []"
  by (induction s) (auto split: list.splits)

lemma split_slash_Cons:
  "split_slash (c # cs) =
     (if c = slash then [] # split_slash cs
      else (c # hd (split_slash cs)) # tl (split_slash cs))"
  using split_slash_not_Nil [of cs] by (auto split: list.splits)

declare split_slash.simps(2) [simp del]

lemma split_slash_snoc: "split_slash (s @ [slash]) = split_slash s @ [[]]"
  by (induction s) (auto simp: split_slash_Cons split_slash_not_Nil)

lemma filter_hd_tl:
  "xs \<noteq> [] \<Longrightarrow> filter P xs = (if P (hd xs) then [hd xs] else []) @ filter P (tl xs)"
  by (cases xs) auto

lemma collapse_split:
  "hd (split_slash (collapse_slashes s)) = hd (split_slash s) \<and>
   filter (\<lambda>seg. seg \<noteq> []) (tl (split_slash (collapse_slashes s))) =
   filter (\<lambda>seg. seg \<noteq> []) (tl (split_slash s))"
proof (induction s rule: collapse_slashes.induct)
  case (1 a b cs)
  show ?case
  proof (cases "a = slash \<and> b = slash")
    case True
    with 1 show ?thesis by (simp add: split_slash_Cons)
  next
    case False
    with 1 have ih: "hd (split_slash (collapse_slashes (b # cs))) = hd (split_slash (b # cs))"
      "filter (\<lambda>seg. seg \<noteq> []) (tl (split_slash (collapse_slashes (b # cs)))) =
       filter (\<lambda>seg. seg \<noteq> []) (tl (split_slash (b # cs)))" by auto
    have f: "filter (\<lambda>seg. seg \<noteq> []) (split_slash (collapse_slashes (b # cs))) =
             filter (\<lambda>seg. seg \<noteq> []) (split_slash (b # cs))"
      using ih filter_hd_tl [OF split_slash_not_Nil, of "\<lambda>seg. seg \<noteq> []"] by metis
    have c: "collapse_slashes (a # b # cs) = a # collapse_slashes (b # cs)"
      using False by auto
    show ?thesis
      unfolding c split_slash_Cons [of a "collapse_slashes (b # cs)"] split_slash_Cons [of a "b # cs"]
      using ih f by simp
  qed
qed simp_all

lemma segments_collapse: "segments (collapse_slashes s) = segments s"
  unfolding segments_def
  using collapse_split [of s] filter_hd_tl [OF split_slash_not_Nil, of "\<lambda>seg. seg \<noteq> []"]
  by metis

lemma segments_strip_leading: "segments (strip_leading_slash s) = segments s"
  by (cases s) (auto simp: segments_def strip_leading_slash_def split_slash_Cons)

lemma segments_strip_trailing: "segments (strip_trailing_slash s) = segments s"
proof (cases "s \<noteq> [] \<and> last s = slash")
  case True
  then have "s = butlast s @ [slash]" by (metis append_butlast_last_id)
  then have "split_slash s = split_slash (butlast s) @ [[]]" by (metis split_slash_snoc)
  with True show ?thesis by (simp add: segments_def strip_trailing_slash_def)
next
  case False
  then show ?thesis by (auto simp: strip_trailing_slash_def)
qed

lemma segments_trim: "segments (trim_slashes s) = segments s"
  by (simp add: trim_slashes_def segments_strip_trailing segments_strip_leading segments_collapse)

lemma empty_in_tl_split:
  "[] \<in> set (tl (split_slash s)) \<longleftrightarrow> s \<noteq> [] \<and> (last s = slash \<or> adjacent_slashes s)"
proof (induction s)
  case Nil
  then show ?case by simp
next
  case (Cons c s)
  have h: "hd (split_slash s) = [] \<longleftrightarrow> s = [] \<or> hd s = slash"
    by (cases s) (auto simp: split_slash_Cons)
  have m: "[] \<in> set (split_slash s) \<longleftrightarrow> hd (split_slash s) = [] \<or> [] \<in> set (tl (split_slash s))"
    using split_slash_not_Nil [of s] by (cases "split_slash s") auto
  show ?case
  proof (cases "c = slash")
    case True
    then show ?thesis using Cons h m by (auto simp: split_slash_Cons adjacent_Cons)
  next
    case False
    then show ?thesis using Cons by (auto simp: split_slash_Cons adjacent_Cons)
  qed
qed

lemma valid_rel_split: "valid_rel p \<Longrightarrow> split_slash p = segments p"
proof -
  assume v: "valid_rel p"
  have h: "hd (split_slash p) \<noteq> []"
    using v by (cases p) (auto simp: valid_rel_def split_slash_Cons)
  have "[] \<notin> set (tl (split_slash p))"
    using v empty_in_tl_split [of p] by (auto simp: valid_rel_def)
  with h have "[] \<notin> set (split_slash p)"
    using split_slash_not_Nil [of p] by (cases "split_slash p") auto
  then have "filter (\<lambda>seg. seg \<noteq> []) (split_slash p) = split_slash p"
    by (intro filter_True) auto
  then show ?thesis by (simp add: segments_def)
qed


section \<open>Percent-decoding\<close>

lemma tokens_no_percent: "percent \<notin> set u \<Longrightarrow> tokens u = Some (map Lit u)"
  by (induction u) auto

lemma utf8_literals: "utf8 Idle (map Lit u) = Some u"
  by (induction u) auto

lemma decoded_no_percent: "percent \<notin> set u \<Longrightarrow> decoded u = u"
  by (simp add: decoded_def decodeURIComponent_def tokens_no_percent utf8_literals)

section \<open>The resolver: round trip\<close>

text \<open>The base URL the constructor of \<open>Config\<close> stores is empty or a valid relative path.\<close>

lemma Config_new_baseurl:
  "Config_new e opts = Inr c \<Longrightarrow> baseurl c = [] \<or> valid_rel (baseurl c)"
proof -
  assume "Config_new e opts = Inr c"
  then have "\<exists>s. baseurl c = trim_slashes s"
    by (auto simp: Config_new_def Let_def split: sum.splits if_splits)
  then obtain s where "baseurl c = trim_slashes s" ..
  with trim_slashes_valid [of s] show ?thesis by simp
qed

lemma remove_first_rooted:
  assumes "b = [] \<or> valid_rel b" and "lead = [] \<or> lead = [slash]"
  shows "remove_first b (lead @ b @ slash # t) = lead @ slash # t"
proof (cases "lead = []")
  case True
  then show ?thesis by (simp add: remove_first_prefix)
next
  case False
  with assms(2) have l: "lead = [slash]" by simp
  show ?thesis
  proof (cases "b = []")
    case True
    then show ?thesis unfolding l by simp
  next
    case False
    with assms(1) have "hd b \<noteq> slash" by (simp add: valid_rel_def)
    with False have "\<not> prefix b (slash # b @ slash # t)"
      by (cases b) auto
    then show ?thesis unfolding l by (simp add: remove_first_prefix)
  qed
qed

lemma trim_around:
  assumes "valid_rel p" and "lead = [] \<or> lead = [slash]" and "trail = [] \<or> trail = [slash]"
  shows "trim_slashes (lead @ slash # p @ trail) = p"
proof -
  from assms(1) obtain x xs where p: "p = x # xs" "x \<noteq> slash"
    by (cases p) (auto simp: valid_rel_def)
  have na: "\<not> adjacent_slashes (p @ trail)"
    using assms(1,3) by (auto simp: valid_rel_def adjacent_snoc)
  have n1: "\<not> adjacent_slashes (slash # p @ trail)"
    using na p by (simp add: adjacent_Cons)
  have c1: "collapse_slashes (slash # p @ trail) = slash # p @ trail"
    by (rule collapse_no_adjacent [OF n1])
  have "collapse_slashes (slash # slash # p @ trail) = collapse_slashes (slash # p @ trail)"
    by simp
  with c1 assms(2) have c: "collapse_slashes (lead @ slash # p @ trail) = slash # p @ trail"
    by auto
  have t: "strip_trailing_slash (p @ trail) = p"
    using assms(1,3) by (auto simp: strip_trailing_slash_def valid_rel_def)
  show ?thesis
    unfolding trim_slashes_def c by (simp add: strip_leading_slash_def t)
qed

lemma rel_of_url_round_trip:
  assumes "valid_rel p" and "baseurl c = [] \<or> valid_rel (baseurl c)"
    and "lead = [] \<or> lead = [slash]" and "trail = [] \<or> trail = [slash]"
    and "decoded u = lead @ baseurl c @ slash # p @ trail"
  shows "rel_of_url c u = p"
  unfolding rel_of_url_def assms(5)
  by (simp add: remove_first_rooted [OF assms(2,3)] trim_around [OF assms(1,3,4)])

lemma starts_double_slash:
  "startsWith s (js ''//'') \<longleftrightarrow> (\<exists>t. s = slash # slash # t)"
  by (auto simp: startsWith_def js_def slash_def prefix_def)

lemma abs_of_rel_valid:
  assumes "valid_rel p" and "\<not> startsWith (root c) (js ''//'')"
  shows "abs_of_rel c p = (if root c = js ''/'' then slash # p else root c @ slash # p)"
proof -
  from assms(1) obtain x xs where p: "p = x # xs" "x \<noteq> slash"
    by (cases p) (auto simp: valid_rel_def)
  have j: "js ''/'' = [slash]" by (simp add: js_def slash_def)
  show ?thesis
  proof (cases "root c")
    case Nil
    then show ?thesis using p by (simp add: abs_of_rel_def starts_double_slash j)
  next
    case (Cons y ys)
    then show ?thesis using p assms(2)
      by (cases ys) (auto simp: abs_of_rel_def starts_double_slash j)
  qed
qed

text \<open>
  Claim C1, as the code has it. Let \<open>p\<close> be a valid relative path, let the base URL be as
  the configuration stores it (empty, or without a slash at either end), and let \<open>u\<close> be a
  request URL whose percent-decoding is \<open>"/" + baseurl + "/" + p\<close>, where the leading
  slash may be missing and a trailing slash may follow (by \<open>decoded_no_percent\<close> a URL
  without a percent sign is its own decoding). If the root does not begin with two slashes
  and no \<open>index.html\<close> substitution applies (\<open>autoindex\<close> is off, or \<open>index.html\<close> does not
  exist under the item), then the resolver yields the relative path \<open>p\<close> and the absolute
  path \<open>root + "/" + p\<close>, or \<open>"/" + p\<close> when the root is \<open>/\<close>.
\<close>

theorem resolve_round_trip:
  assumes "valid_rel p"
    and "baseurl c = [] \<or> valid_rel (baseurl c)"
    and "lead = [] \<or> lead = [slash]"
    and "trail = [] \<or> trail = [slash]"
    and "decoded u = lead @ baseurl c @ slash # p @ trail"
    and "\<not> startsWith (root c) (js ''//'')"
    and "\<not> (autoindex c \<and>
            existsSync fs ((if root c = js ''/'' then slash # p else root c @ slash # p)
                           @ js ''/index.html''))"
  shows "r_rel (fst (R_new c fs \<lparr>req_method = m, url = u\<rparr> i)) = p \<and>
         r_abs (fst (R_new c fs \<lparr>req_method = m, url = u\<rparr> i)) =
           (if root c = js ''/'' then slash # p else root c @ slash # p)"
proof -
  have rel: "rel_of_url c u = p"
    by (rule rel_of_url_round_trip [OF assms(1,2,3,4,5)])
  have ab: "abs_of_rel c p = (if root c = js ''/'' then slash # p else root c @ slash # p)"
    by (rule abs_of_rel_valid [OF assms(1,6)])
  have no: "\<not> (autoindex c \<and> existsSync fs (abs_of_rel c p @ js ''/index.html''))"
    using assms(7) unfolding ab .
  have "r_rel (fst (R_new c fs \<lparr>req_method = m, url = u\<rparr> i)) = p \<and>
        r_abs (fst (R_new c fs \<lparr>req_method = m, url = u\<rparr> i)) = abs_of_rel c p"
    using no by (auto simp: R_new_def Let_def rel)
  then show ?thesis unfolding ab .
qed

theorem resolve_round_trip_witness:
  "r_rel (fst (R_new readme_config fs1 \<lparr>req_method = js ''GET'', url = js ''/blog/a%20b.txt''\<rparr>
                 (js ''000''))) = js ''a b.txt'' \<and>
   r_abs (fst (R_new readme_config fs1 \<lparr>req_method = js ''GET'', url = js ''/blog/a%20b.txt''\<rparr>
                 (js ''000''))) = js ''/srv/output/a b.txt'' \<and>
   r_rel (fst (R_new listing_config fs1 \<lparr>req_method = js ''GET'', url = js ''/blog/docs/''\<rparr>
                 (js ''000''))) = js ''docs'' \<and>
   r_abs (fst (R_new listing_config fs1 \<lparr>req_method = js ''GET'', url = js ''/blog/docs/''\<rparr>
                 (js ''000''))) = js ''/srv/output/docs'' \<and>
   r_abs (fst (R_new slash_config fs1 \<lparr>req_method = js ''GET'', url = js ''/etc/hosts''\<rparr>
                 (js ''000''))) = js ''/etc/hosts'' \<and>
   r_rel (fst (R_new slash_config fs1 \<lparr>req_method = js ''GET'', url = js ''//etc/hosts''\<rparr>
                 (js ''000''))) = js ''etc/hosts'' \<and>
   r_abs (fst (R_new slash_config fs1 \<lparr>req_method = js ''GET'', url = js ''//etc/hosts''\<rparr>
                 (js ''000''))) = js ''/etc/hosts''"
proof -
  have v: "valid_rel (js ''a b.txt'')" "valid_rel (js ''docs'')" "valid_rel (js ''etc/hosts'')"
    by (simp_all add: valid_rel_def js_def slash_def)
  have b: "baseurl readme_config = [] \<or> valid_rel (baseurl readme_config)"
    "baseurl listing_config = [] \<or> valid_rel (baseurl listing_config)"
    "baseurl slash_config = [] \<or> valid_rel (baseurl slash_config)"
    by (simp_all add: valid_rel_def slash_config_def listing_config_def readme_config_def
        js_def slash_def)
  have l: "[slash] = [] \<or> [slash] = [slash]" "([]::jsstring) = [] \<or> ([]::jsstring) = [slash]"
    by simp_all
  have d: "decoded (js ''/blog/a%20b.txt'') =
             [slash] @ baseurl readme_config @ slash # js ''a b.txt'' @ []"
    "decoded (js ''/blog/docs/'') =
             [slash] @ baseurl listing_config @ slash # js ''docs'' @ [slash]"
    "decoded (js ''/etc/hosts'') = [] @ baseurl slash_config @ slash # js ''etc/hosts'' @ []"
    "decoded (js ''//etc/hosts'') =
             [slash] @ baseurl slash_config @ slash # js ''etc/hosts'' @ []"
    by (simp_all add: decoded_def decodeURIComponent_def hexval_def slash_config_def
        listing_config_def readme_config_def string_defs)
  have r: "\<not> startsWith (root readme_config) (js ''//'')"
    "\<not> startsWith (root listing_config) (js ''//'')"
    "\<not> startsWith (root slash_config) (js ''//'')"
    by (simp_all add: startsWith_def slash_config_def listing_config_def readme_config_def
        string_defs)
  have x: "\<not> (autoindex readme_config \<and>
            existsSync fs1 ((if root readme_config = js ''/'' then slash # js ''a b.txt''
                             else root readme_config @ slash # js ''a b.txt'') @ js ''/index.html''))"
    by (simp add: existsSync_def readme_config_def fs1_defs string_defs)
  have y: "\<not> (autoindex listing_config \<and>
            existsSync fs1 ((if root listing_config = js ''/'' then slash # js ''docs''
                             else root listing_config @ slash # js ''docs'') @ js ''/index.html''))"
    "\<not> (autoindex slash_config \<and>
            existsSync fs1 ((if root slash_config = js ''/'' then slash # js ''etc/hosts''
                             else root slash_config @ slash # js ''etc/hosts'') @ js ''/index.html''))"
    by (simp_all add: slash_config_def listing_config_def readme_config_def)
  from resolve_round_trip [OF v(1) b(1) l(1) l(2) d(1) r(1) x, of "js ''GET''" "js ''000''"]
       resolve_round_trip [OF v(2) b(2) l(1) l(1) d(2) r(2) y(1), of "js ''GET''" "js ''000''"]
       resolve_round_trip [OF v(3) b(3) l(2) l(2) d(3) r(3) y(2), of "js ''GET''" "js ''000''"]
       resolve_round_trip [OF v(3) b(3) l(1) l(2) d(4) r(3) y(2), of "js ''GET''" "js ''000''"]
  show ?thesis
    by (simp add: readme_config_def slash_config_def listing_config_def string_defs)
qed

text \<open>
  Claim C1 as stated fails. With the configuration of the README (base URL \<open>/blog\<close>,
  \<open>autoindex\<close>), the valid relative path \<open>docs\<close> of a directory that holds an \<open>index.html\<close>
  is requested as \<open>/blog/docs\<close> and resolves to \<open>docs/index.html\<close>, not to \<open>docs\<close>; and
  the valid relative path \<open>a%20b.txt\<close>, requested as \<open>/blog/a%20b.txt\<close>, resolves to
  \<open>a b.txt\<close>, since the URL is percent-decoded.
\<close>

theorem resolve_round_trip_counterexample:
  "valid_rel (js ''docs'') \<and>
   r_rel (fst (R_new readme_config fs1
                 \<lparr>req_method = js ''GET'',
                    url = js ''/'' @ baseurl readme_config @ js ''/'' @ js ''docs''\<rparr>
                 (js ''000''))) = js ''docs/index.html'' \<and>
   r_abs (fst (R_new readme_config fs1
                 \<lparr>req_method = js ''GET'',
                    url = js ''/'' @ baseurl readme_config @ js ''/'' @ js ''docs''\<rparr>
                 (js ''000''))) = js ''/srv/output/docs/index.html'' \<and>
   valid_rel (js ''a%20b.txt'') \<and>
   r_rel (fst (R_new readme_config fs1
                 \<lparr>req_method = js ''GET'',
                    url = js ''/'' @ baseurl readme_config @ js ''/'' @ js ''a%20b.txt''\<rparr>
                 (js ''000''))) = js ''a b.txt''"
  by (simp add: valid_rel_def readme_config_def resolve_defs fs1_defs string_defs)

section \<open>The resolver: index.html\<close>

text \<open>
  Claim C4. If \<open>autoindex\<close> is enabled and \<open>index.html\<close> exists directly inside the resolved
  absolute path, the resolver substitutes: the relative path becomes \<open><relative>/index.html\<close>
  (\<open>index.html\<close> at the root) and the absolute path gets \<open>/index.html\<close> appended. If
  \<open>autoindex\<close> is disabled, or the existence check fails with any error (no such entry, or a
  directory that cannot be accessed), nothing is substituted. The resolver is a total
  function: the check returns false where \<open>statSync\<close> would throw.
\<close>

theorem autoindex_substitution:
  "(autoindex c \<and>
    (\<exists>st. statSync fs (abs_of_rel c (rel_of_url c (url req)) @ js ''/index.html'') = Inr st) \<longrightarrow>
      r_rel (fst (R_new c fs req i)) =
        (if rel_of_url c (url req) = [] then js ''index.html''
         else rel_of_url c (url req) @ js ''/index.html'') \<and>
      r_abs (fst (R_new c fs req i)) =
        abs_of_rel c (rel_of_url c (url req)) @ js ''/index.html'') \<and>
   (\<not> autoindex c \<or>
    (\<exists>err. statSync fs (abs_of_rel c (rel_of_url c (url req)) @ js ''/index.html'') = Inl err) \<longrightarrow>
      r_rel (fst (R_new c fs req i)) = rel_of_url c (url req) \<and>
      r_abs (fst (R_new c fs req i)) = abs_of_rel c (rel_of_url c (url req)))"
  by (auto simp: R_new_def Let_def existsSync_def)

theorem autoindex_substitution_witness:
  "r_rel (fst (R_new readme_config fs1 \<lparr>req_method = js ''GET'', url = js ''/blog/''\<rparr> (js ''000'')))
     = js ''index.html'' \<and>
   r_abs (fst (R_new readme_config fs1 \<lparr>req_method = js ''GET'', url = js ''/blog/''\<rparr> (js ''000'')))
     = js ''/srv/output/index.html'' \<and>
   r_rel (fst (R_new readme_config fs1 \<lparr>req_method = js ''GET'', url = js ''/blog/docs/''\<rparr> (js ''000'')))
     = js ''docs/index.html'' \<and>
   r_abs (fst (R_new readme_config fs1 \<lparr>req_method = js ''GET'', url = js ''/blog/docs/''\<rparr> (js ''000'')))
     = js ''/srv/output/docs/index.html'' \<and>
   statSync fs1 (js ''/srv/output/private/index.html'') = Inl eacces \<and>
   r_rel (fst (R_new readme_config fs1 \<lparr>req_method = js ''GET'', url = js ''/blog/private''\<rparr> (js ''000'')))
     = js ''private'' \<and>
   r_abs (fst (R_new readme_config fs1 \<lparr>req_method = js ''GET'', url = js ''/blog/private''\<rparr> (js ''000'')))
     = js ''/srv/output/private'' \<and>
   r_rel (fst (R_new listing_config fs1 \<lparr>req_method = js ''GET'', url = js ''/blog/''\<rparr> (js ''000'')))
     = []"
proof -
  have r: "rel_of_url readme_config (js ''/blog/'') = []"
    "rel_of_url readme_config (js ''/blog/docs/'') = js ''docs''"
    "rel_of_url readme_config (js ''/blog/private'') = js ''private''"
    "rel_of_url listing_config (js ''/blog/'') = []"
    by (simp_all add: listing_config_def readme_config_def resolve_defs string_defs)
  have a: "abs_of_rel readme_config [] = js ''/srv/output''"
    "abs_of_rel readme_config (js ''docs'') = js ''/srv/output/docs''"
    "abs_of_rel readme_config (js ''private'') = js ''/srv/output/private''"
    by (simp_all add: readme_config_def resolve_defs string_defs)
  have s: "statSync fs1 (js ''/srv/output/index.html'') = Inr file_stats"
    "statSync fs1 (js ''/srv/output/docs/index.html'') = Inr file_stats"
    "statSync fs1 (js ''/srv/output/private/index.html'') = Inl eacces"
    by (simp_all add: fs1_def js_def)
  have c: "autoindex readme_config" "\<not> autoindex listing_config"
    by (simp_all add: listing_config_def readme_config_def)
  have j: "js ''/srv/output'' @ js ''/index.html'' = js ''/srv/output/index.html''"
    "js ''/srv/output/docs'' @ js ''/index.html'' = js ''/srv/output/docs/index.html''"
    "js ''/srv/output/private'' @ js ''/index.html'' = js ''/srv/output/private/index.html''"
    "js ''docs'' @ js ''/index.html'' = js ''docs/index.html''"
    "js ''docs'' \<noteq> []"
    by (simp_all add: js_def)
  from autoindex_substitution
         [of readme_config fs1 "\<lparr>req_method = js ''GET'', url = js ''/blog/''\<rparr>" "js ''000''"]
       autoindex_substitution
         [of readme_config fs1 "\<lparr>req_method = js ''GET'', url = js ''/blog/docs/''\<rparr>" "js ''000''"]
       autoindex_substitution
         [of readme_config fs1 "\<lparr>req_method = js ''GET'', url = js ''/blog/private''\<rparr>" "js ''000''"]
       autoindex_substitution
         [of listing_config fs1 "\<lparr>req_method = js ''GET'', url = js ''/blog/''\<rparr>" "js ''000''"]
  show ?thesis
    by (simp add: r a s c j)
qed

section \<open>The resolver: paths\<close>

lemma abs_of_rel_plain:
  assumes "\<not> startsWith (root c) (js ''//'')" and "root c \<noteq> js ''/''"
    and "rel = [] \<or> valid_rel rel"
  shows "abs_of_rel c rel = (if rel = [] then root c else root c @ slash # rel)"
proof (cases "rel = []")
  case True
  with assms(1) show ?thesis by (simp add: abs_of_rel_def)
next
  case False
  with assms(3) have "valid_rel rel" by simp
  from abs_of_rel_valid [OF this assms(1)] assms(2) False show ?thesis by simp
qed

lemma abs_of_rel_slash:
  assumes "root c = js ''/''"
  shows "abs_of_rel c rel = slash # rel"
  using assms by (simp add: abs_of_rel_def startsWith_def js_def slash_def Let_def)

lemma rel_segments:
  "(rel_of_url c u \<noteq> [] \<longrightarrow>
      split_slash (rel_of_url c u) = segments (remove_first (baseurl c) (decoded u))) \<and>
   (rel_of_url c u = [] \<longrightarrow> segments (remove_first (baseurl c) (decoded u)) = [])"
proof -
  let ?s = "remove_first (baseurl c) (decoded u)"
  have e: "segments (rel_of_url c u) = segments ?s"
    by (simp add: rel_of_url_def segments_trim)
  have v: "rel_of_url c u = [] \<or> valid_rel (rel_of_url c u)"
    unfolding rel_of_url_def by (rule trim_slashes_valid)
  have n: "segments [] = []" by (simp add: segments_def)
  from e v n valid_rel_split show ?thesis by metis
qed


lemma listing_fields:
  "root listing_config = js ''/srv/output''" "baseurl listing_config = js ''blog''"
  "\<not> autoindex listing_config" "servedir listing_config"
  "headers listing_config = [(js ''cache-control'', VStr (js ''public, max-age=604800, immutable''))]"
  "mimes listing_config = []"
  by (simp_all add: listing_config_def readme_config_def)

lemma secret_content_type:
  "content_type env0 listing_config (js ''/srv/output/../secret.txt'') = VStr (js ''text/plain'')"
proof -
  have e: "toLowerCase (unicode_lower env0) (drop 1 (path_ext (js ''/srv/output/../secret.txt'')))
             = js ''txt''"
    by (simp add: path_ext_def basename_def toLowerCase_def string_defs)
  have o: "object_prototype (js ''txt'') = VUndefined"
    by (simp add: object_prototype_def js_eq_iff)
  have t: "js ''text/plain'' \<noteq> []"
    by (simp add: js_def)
  show ?thesis
    unfolding content_type_def Let_def e
    by (simp add: get_def builtin_txt o t listing_fields)
qed

lemma traversal_served:
  "r_abs (fst (R_new listing_config fs1
                 \<lparr>req_method = js ''GET'', url = js ''/blog/%2e%2e/secret.txt''\<rparr> (js ''000''))) =
     js ''/srv/output/../secret.txt'' \<and>
   filter is_response
     (events (handle env0 fs1 \<lparr>config = listing_config, reqcount = 0\<rparr>
                \<lparr>req_method = js ''GET'', url = js ''/blog/%2e%2e/secret.txt''\<rparr>)) =
     [WriteHead 200
        [(js ''cache-control'', VStr (js ''public, max-age=604800, immutable'')),
         (js ''content-type'', VStr (js ''text/plain''))],
      Write (js ''hello''), End None]"
  by (simp add: handle_def dispatch_def sendFile_def listing_fields
      secret_content_type [unfolded js_def, simplified]
      resolve_defs header_defs fs1_defs string_defs)

lemma traversal_outside:
  "location (js ''/srv/output/../secret.txt'') = [js ''srv'', js ''secret.txt''] \<and>
   location (root listing_config) = [js ''srv'', js ''output''] \<and>
   \<not> inside (root listing_config) (js ''/srv/output/../secret.txt'')"
  by (simp add: inside_def location_def segments_def walk_def listing_config_def readme_config_def
      js_def slash_def split_slash.simps)

text \<open>
  Claim C10, as the code has it. For every request URL \<open>u\<close>, let the normalised path be the
  percent-decoded URL (the raw URL when decoding fails) with the first occurrence of the base
  URL removed, slash runs collapsed and one leading and one trailing slash stripped. When no
  \<open>index.html\<close> substitution applies, the relative path is the normalised path and the
  absolute path is the root joined with it by one slash (the root alone when it is empty),
  with one slash dropped when that begins with two (root \<open>/\<close>); when the substitution
  applies, \<open>/index.html\<close> is appended to both. The segments of the normalised path are the
  non-empty segments of the decoded URL without the base URL, in order and verbatim, \<open>..\<close>
  included. No containment check is made: the URL \<open>/blog/%2e%2e/secret.txt\<close> resolves to
  \<open>/srv/output/../secret.txt\<close>, which lies outside the root \<open>/srv/output\<close>, and is served
  with status 200.
\<close>

theorem resolver_paths:
  "(\<not> (autoindex c \<and> existsSync fs (abs_of_rel c (rel_of_url c u) @ js ''/index.html'')) \<longrightarrow>
      r_rel (fst (R_new c fs \<lparr>req_method = m, url = u\<rparr> i)) = rel_of_url c u \<and>
      r_abs (fst (R_new c fs \<lparr>req_method = m, url = u\<rparr> i)) = abs_of_rel c (rel_of_url c u)) \<and>
   (autoindex c \<and> existsSync fs (abs_of_rel c (rel_of_url c u) @ js ''/index.html'') \<longrightarrow>
      r_rel (fst (R_new c fs \<lparr>req_method = m, url = u\<rparr> i)) =
        (if rel_of_url c u = [] then js ''index.html'' else rel_of_url c u @ js ''/index.html'') \<and>
      r_abs (fst (R_new c fs \<lparr>req_method = m, url = u\<rparr> i)) =
        abs_of_rel c (rel_of_url c u) @ js ''/index.html'') \<and>
   rel_of_url c u = trim_slashes (remove_first (baseurl c) (decoded u)) \<and>
   (\<not> startsWith (root c) (js ''//'') \<and> root c \<noteq> js ''/'' \<longrightarrow>
      abs_of_rel c (rel_of_url c u) =
        (if rel_of_url c u = [] then root c else root c @ slash # rel_of_url c u)) \<and>
   (root c = js ''/'' \<longrightarrow> abs_of_rel c (rel_of_url c u) = slash # rel_of_url c u) \<and>
   (rel_of_url c u \<noteq> [] \<longrightarrow>
      split_slash (rel_of_url c u) = segments (remove_first (baseurl c) (decoded u))) \<and>
   (rel_of_url c u = [] \<longrightarrow> segments (remove_first (baseurl c) (decoded u)) = []) \<and>
   r_abs (fst (R_new listing_config fs1
                 \<lparr>req_method = js ''GET'', url = js ''/blog/%2e%2e/secret.txt''\<rparr> (js ''000''))) =
     js ''/srv/output/../secret.txt'' \<and>
   \<not> inside (root listing_config) (js ''/srv/output/../secret.txt'') \<and>
   filter is_response
     (events (handle env0 fs1 \<lparr>config = listing_config, reqcount = 0\<rparr>
                \<lparr>req_method = js ''GET'', url = js ''/blog/%2e%2e/secret.txt''\<rparr>)) =
     [WriteHead 200
        [(js ''cache-control'', VStr (js ''public, max-age=604800, immutable'')),
         (js ''content-type'', VStr (js ''text/plain''))],
      Write (js ''hello''), End None]"
proof -
  have v: "rel_of_url c u = [] \<or> valid_rel (rel_of_url c u)"
    unfolding rel_of_url_def by (rule trim_slashes_valid)
  have 1: "\<not> (autoindex c \<and> existsSync fs (abs_of_rel c (rel_of_url c u) @ js ''/index.html'')) \<longrightarrow>
      r_rel (fst (R_new c fs \<lparr>req_method = m, url = u\<rparr> i)) = rel_of_url c u \<and>
      r_abs (fst (R_new c fs \<lparr>req_method = m, url = u\<rparr> i)) = abs_of_rel c (rel_of_url c u)"
    by (auto simp: R_new_def Let_def)
  have 2: "autoindex c \<and> existsSync fs (abs_of_rel c (rel_of_url c u) @ js ''/index.html'') \<longrightarrow>
      r_rel (fst (R_new c fs \<lparr>req_method = m, url = u\<rparr> i)) =
        (if rel_of_url c u = [] then js ''index.html'' else rel_of_url c u @ js ''/index.html'') \<and>
      r_abs (fst (R_new c fs \<lparr>req_method = m, url = u\<rparr> i)) =
        abs_of_rel c (rel_of_url c u) @ js ''/index.html''"
    by (auto simp: R_new_def Let_def)
  have 3: "rel_of_url c u = trim_slashes (remove_first (baseurl c) (decoded u))"
    by (simp add: rel_of_url_def)
  have 4: "\<not> startsWith (root c) (js ''//'') \<and> root c \<noteq> js ''/'' \<longrightarrow>
      abs_of_rel c (rel_of_url c u) =
        (if rel_of_url c u = [] then root c else root c @ slash # rel_of_url c u)"
    using abs_of_rel_plain [OF _ _ v] by blast
  have 5: "root c = js ''/'' \<longrightarrow> abs_of_rel c (rel_of_url c u) = slash # rel_of_url c u"
    using abs_of_rel_slash by blast
  note 6 = rel_segments [of c u]
  note 7 = traversal_served traversal_outside
  from 1 2 3 4 5 6 7 show ?thesis by blast
qed

theorem resolver_paths_witness:
  "r_rel (fst (R_new listing_config fs1
                 \<lparr>req_method = js ''GET'', url = js ''/blog//docs/../a%20b.txt/''\<rparr> (js ''000''))) =
     js ''docs/../a b.txt'' \<and>
   r_abs (fst (R_new listing_config fs1
                 \<lparr>req_method = js ''GET'', url = js ''/blog//docs/../a%20b.txt/''\<rparr> (js ''000''))) =
     js ''/srv/output/docs/../a b.txt'' \<and>
   split_slash (js ''docs/../a b.txt'') = segments (js ''///docs/../a b.txt/'') \<and>
   r_rel (fst (R_new readme_config fs1 \<lparr>req_method = js ''GET'', url = js ''/blog/''\<rparr> (js ''000'')))
     = js ''index.html'' \<and>
   r_abs (fst (R_new slash_config fs1 \<lparr>req_method = js ''GET'', url = js ''/etc/hosts''\<rparr> (js ''000'')))
     = js ''/etc/hosts''"
proof -
  have d: "decoded (js ''/blog//docs/../a%20b.txt/'') = js ''/blog//docs/../a b.txt/''"
    "decoded (js ''/blog/'') = js ''/blog/''" "decoded (js ''/etc/hosts'') = js ''/etc/hosts''"
    by (simp_all add: decoded_def decodeURIComponent_def hexval_def string_defs)
  have b: "baseurl listing_config = js ''blog''" "baseurl readme_config = js ''blog''"
    "baseurl slash_config = []" "root listing_config = js ''/srv/output''"
    "root readme_config = js ''/srv/output''" "root slash_config = js ''/''"
    "autoindex readme_config" "\<not> autoindex listing_config" "\<not> autoindex slash_config"
    by (simp_all add: slash_config_def listing_config_def readme_config_def)
  have f: "remove_first (js ''blog'') (js ''/blog//docs/../a b.txt/'') = js ''///docs/../a b.txt/''"
    "remove_first (js ''blog'') (js ''/blog/'') = js ''//''"
    "remove_first [] (js ''/etc/hosts'') = js ''/etc/hosts''"
    by (simp_all add: js_def)
  have t: "trim_slashes (js ''///docs/../a b.txt/'') = js ''docs/../a b.txt''"
    "trim_slashes (js ''//'') = []" "trim_slashes (js ''/etc/hosts'') = js ''etc/hosts''"
    by (simp_all add: trim_slashes_def strip_leading_slash_def strip_trailing_slash_def string_defs)
  have r: "rel_of_url listing_config (js ''/blog//docs/../a%20b.txt/'') = js ''docs/../a b.txt''"
    "rel_of_url readme_config (js ''/blog/'') = []"
    "rel_of_url slash_config (js ''/etc/hosts'') = js ''etc/hosts''"
    by (simp_all add: rel_of_url_def d b f t)
  have n: "js ''docs/../a b.txt'' \<noteq> []" "js ''/srv/output'' \<noteq> js ''/''"
    "\<not> startsWith (js ''/srv/output'') (js ''//'')"
    "js ''/srv/output'' @ slash # js ''docs/../a b.txt'' = js ''/srv/output/docs/../a b.txt''"
    "slash # js ''etc/hosts'' = js ''/etc/hosts''"
    by (simp_all add: startsWith_def string_defs)
  have a: "abs_of_rel readme_config [] = js ''/srv/output''"
    by (simp add: readme_config_def abs_of_rel_def startsWith_def string_defs)
  have e: "existsSync fs1 (js ''/srv/output'' @ js ''/index.html'')"
    by (simp add: existsSync_def fs1_def js_def)
  let ?u1 = "js ''/blog//docs/../a%20b.txt/''"
  let ?r1 = "fst (R_new listing_config fs1 \<lparr>req_method = js ''GET'', url = ?u1\<rparr> (js ''000''))"
  let ?r2 = "fst (R_new readme_config fs1 \<lparr>req_method = js ''GET'', url = js ''/blog/''\<rparr> (js ''000''))"
  let ?u3 = "js ''/etc/hosts''"
  let ?r3 = "fst (R_new slash_config fs1 \<lparr>req_method = js ''GET'', url = ?u3\<rparr> (js ''000''))"
  note p1 = resolver_paths [of listing_config fs1 ?u1 "js ''GET''" "js ''000''"]
  note p2 = resolver_paths [of readme_config fs1 "js ''/blog/''" "js ''GET''" "js ''000''"]
  note p3 = resolver_paths [of slash_config fs1 ?u3 "js ''GET''" "js ''000''"]
  have 1: "r_rel ?r1 = js ''docs/../a b.txt''"
    using p1 b(8) unfolding r by blast
  have "r_abs ?r1 = abs_of_rel listing_config (rel_of_url listing_config ?u1)"
    using p1 b(8) by blast
  also have "\<dots> = (if rel_of_url listing_config ?u1 = [] then root listing_config
                      else root listing_config @ slash # rel_of_url listing_config ?u1)"
    using p1 n(2,3) unfolding b(4) by blast
  also have "\<dots> = root listing_config @ slash # rel_of_url listing_config ?u1"
    unfolding r by (simp only: n(1) if_False)
  also have "\<dots> = js ''/srv/output/docs/../a b.txt''"
    unfolding r b(4) by (rule n(4))
  finally have 2: "r_abs ?r1 = js ''/srv/output/docs/../a b.txt''" .
  have "split_slash (rel_of_url listing_config ?u1) =
        segments (remove_first (baseurl listing_config) (decoded ?u1))"
    using p1 n(1) unfolding r by blast
  then have 3: "split_slash (js ''docs/../a b.txt'') = segments (js ''///docs/../a b.txt/'')"
    unfolding r b d f .
  have "r_rel ?r2 = (if rel_of_url readme_config (js ''/blog/'') = [] then js ''index.html''
                     else rel_of_url readme_config (js ''/blog/'') @ js ''/index.html'')"
    using p2 b(7) e unfolding r a by blast
  then have 4: "r_rel ?r2 = js ''index.html''"
    unfolding r by simp
  have "r_abs ?r3 = abs_of_rel slash_config (rel_of_url slash_config ?u3)"
    using p3 b(9) by blast
  also have "\<dots> = slash # rel_of_url slash_config ?u3"
    using p3 b(6) by blast
  also have "\<dots> = js ''/etc/hosts''"
    unfolding r by (rule n(5))
  finally have 5: "r_abs ?r3 = js ''/etc/hosts''" .
  from 1 2 3 4 5 show ?thesis by blast
qed

text \<open>
  Claim C10 as stated fails: with \<open>autoindex\<close>, the URL \<open>/blog/\<close> normalises to the empty
  path, but the relative path of the resolver is \<open>index.html\<close> and the absolute path is
  not the root alone.
\<close>

theorem resolver_paths_counterexample:
  "r_rel (fst (R_new readme_config fs1 \<lparr>req_method = js ''GET'', url = js ''/blog/''\<rparr> (js ''000'')))
     = js ''index.html'' \<and>
   trim_slashes (remove_first (baseurl readme_config) (decoded (js ''/blog/''))) = [] \<and>
   r_abs (fst (R_new readme_config fs1 \<lparr>req_method = js ''GET'', url = js ''/blog/''\<rparr> (js ''000'')))
     = js ''/srv/output/index.html''"
  by (simp add: readme_config_def resolve_defs fs1_defs string_defs)


section \<open>The request counter\<close>

lemma handle_ident: "ident (handle e fs this req) = padStart3 (digits (reqcount this))"
  by (simp add: handle_def Let_def split: prod.splits)

lemma handle_server:
  "server (handle e fs this req) = this\<lparr>reqcount := increment (reqcount this)\<rparr>"
  by (simp add: handle_def Let_def split: prod.splits)

lemma handle_non_get_uncaught:
  assumes "req_method req \<noteq> js ''GET''"
    and "check_headers (assign (js ''content-type'') (VStr (js ''text/plain''))
                          (copy_headers (headers (config this)))) = None"
  shows "uncaught (handle e fs this req) = None"
  using assms
  by (auto simp: handle_def dispatch_def R_new_def sendStatus_def writeHead_def Let_def)

lemma listing_non_get_uncaught:
  assumes "req_method req \<noteq> js ''GET''"
  shows "uncaught (handle e fs \<lparr>config = listing_config, reqcount = n\<rparr> req) = None"
  by (rule handle_non_get_uncaught [OF assms])
    (simp only: rxfs.select_convs readme_headers_accepted)

lemma number_of_snoc: "number_of (s @ [c]) = 10 * number_of s + (c - 48)"
  by (simp add: number_of_def)

lemma number_of_digits: "number_of (digits n) = n"
proof (induction n rule: digits.induct)
  case (1 n)
  show ?case
  proof (cases "n < 10")
    case True
    then show ?thesis by (simp add: digits.simps [of n] number_of_def)
  next
    case False
    with 1 have "number_of (digits (n div 10)) = n div 10" by simp
    with False show ?thesis by (simp add: digits.simps [of n] number_of_snoc)
  qed
qed

lemma number_of_zeros: "number_of (replicate k 48 @ s) = number_of s"
  by (induction k) (simp_all add: number_of_def)

lemma number_of_ident: "number_of (padStart3 (digits n)) = n"
  by (simp add: padStart3_def number_of_zeros number_of_digits)

lemma serve_ids:
  "reqcount this + length reqs \<le> 2 ^ 53 \<Longrightarrow>
   map (\<lambda>out. (ident out, reqcount (server out))) (serve e this reqs) =
   map (\<lambda>k. (padStart3 (digits (reqcount this + k)), reqcount this + k + 1))
       [0..<length (serve e this reqs)]"
proof (induction reqs arbitrary: this)
  case Nil
  then show ?case by simp
next
  case (Cons fr reqs)
  obtain fs req where fr: "fr = (fs, req)" by (cases fr)
  let ?out = "handle e fs this req"
  from Cons.prems have lt: "reqcount this < 2 ^ 53" by simp
  have i: "ident ?out = padStart3 (digits (reqcount this))" by (rule handle_ident)
  have s: "reqcount (server ?out) = reqcount this + 1"
    using lt by (simp add: handle_server increment_def)
  show ?case
  proof (cases "uncaught ?out")
    case (Some err)
    then show ?thesis unfolding fr by (simp add: i s)
  next
    case None
    from Cons.prems s have "reqcount (server ?out) + length reqs \<le> 2 ^ 53" by simp
    from Cons.IH [OF this]
    have ih: "map (\<lambda>out. (ident out, reqcount (server out))) (serve e (server ?out) reqs) =
        map (\<lambda>k. (padStart3 (digits (reqcount this + Suc k)), reqcount this + Suc k + 1))
          [0..<length (serve e (server ?out) reqs)]"
      by (simp add: s)
    have "[0..<Suc (length (serve e (server ?out) reqs))] =
          0 # [Suc 0..<Suc (length (serve e (server ?out) reqs))]"
      by (rule upt_conv_Cons) simp
    then have "[0..<Suc (length (serve e (server ?out) reqs))] =
          0 # map Suc [0..<length (serve e (server ?out) reqs)]"
      by (simp only: map_Suc_upt)
    then show ?thesis unfolding fr using None ih
      by (simp add: i s o_def Let_def del: upt_Suc)
  qed
qed

text \<open>
  Claim C9, as the code has it. Over any sequence of requests handled by one server instance
  during which the counter stays within \<open>2^53\<close>, each request receives the current value of
  the counter as its id (in decimal, padded to three digits) and the counter increases by
  one: the ids are the consecutive numbers from the counter's first value on, pairwise
  distinct and strictly increasing.
\<close>

theorem request_ids_sequential:
  assumes "reqcount this + length reqs \<le> 2 ^ 53"
  shows "map ident (serve e this reqs) =
           map (\<lambda>k. padStart3 (digits (reqcount this + k))) [0..<length (serve e this reqs)] \<and>
         map (\<lambda>out. number_of (ident out)) (serve e this reqs) =
           [reqcount this..<reqcount this + length (serve e this reqs)] \<and>
         map (\<lambda>out. reqcount (server out)) (serve e this reqs) =
           [reqcount this + 1..<reqcount this + 1 + length (serve e this reqs)] \<and>
         distinct (map ident (serve e this reqs)) \<and>
         sorted_wrt (<) (map (\<lambda>out. number_of (ident out)) (serve e this reqs))"
proof -
  let ?outs = "serve e this reqs"
  let ?c = "reqcount this"
  note ids = serve_ids [OF assms, of e]
  have a: "map ident ?outs = map (\<lambda>k. padStart3 (digits (?c + k))) [0..<length ?outs]"
    using arg_cong [OF ids, of "map fst"] by (simp add: o_def)
  have c: "map (\<lambda>out. reqcount (server out)) ?outs = map (\<lambda>k. ?c + k + 1) [0..<length ?outs]"
    using arg_cong [OF ids, of "map snd"] by (simp add: o_def)
  have "map (\<lambda>out. number_of (ident out)) ?outs = map number_of (map ident ?outs)"
    by (simp add: o_def)
  also have "\<dots> = map (\<lambda>k. ?c + k) [0..<length ?outs]"
    unfolding a by (simp add: o_def number_of_ident)
  also have "\<dots> = [?c..<?c + length ?outs]"
    by (simp add: map_add_upt add.commute)
  finally have b: "map (\<lambda>out. number_of (ident out)) ?outs = [?c..<?c + length ?outs]" .
  have "map (\<lambda>k. ?c + k + 1) [0..<length ?outs] = [?c + 1..<?c + 1 + length ?outs]"
    using map_add_upt [of "?c + 1" "length ?outs"] by (simp add: add.commute add.left_commute)
  with c have c': "map (\<lambda>out. reqcount (server out)) ?outs = [?c + 1..<?c + 1 + length ?outs]"
    by simp
  have "distinct (map number_of (map ident ?outs))"
    using b by (simp add: o_def)
  then have d: "distinct (map ident ?outs)"
    using distinct_map [of number_of "map ident ?outs"] by blast
  have s: "sorted_wrt (<) (map (\<lambda>out. number_of (ident out)) ?outs)"
    unfolding b by (rule sorted_wrt_upt)
  from a b c' d s show ?thesis by blast
qed

theorem request_ids_sequential_witness:
  "map ident (serve env0 \<lparr>config = listing_config, reqcount = 998\<rparr>
                [(fs1, \<lparr>req_method = js ''POST'', url = js ''/blog/''\<rparr>),
                 (fs1, \<lparr>req_method = js ''HEAD'', url = js ''/blog/docs''\<rparr>),
                 (fs1, \<lparr>req_method = js ''PUT'', url = js ''/blog/x''\<rparr>)]) =
     [js ''998'', js ''999'', js ''1000''] \<and>
   map (\<lambda>out. reqcount (server out))
       (serve env0 \<lparr>config = listing_config, reqcount = 998\<rparr>
                [(fs1, \<lparr>req_method = js ''POST'', url = js ''/blog/''\<rparr>),
                 (fs1, \<lparr>req_method = js ''HEAD'', url = js ''/blog/docs''\<rparr>),
                 (fs1, \<lparr>req_method = js ''PUT'', url = js ''/blog/x''\<rparr>)]) =
     [999, 1000, 1001]"
proof -
  let ?srv = "\<lparr>config = listing_config, reqcount = 998\<rparr>"
  let ?reqs = "[(fs1, \<lparr>req_method = js ''POST'', url = js ''/blog/''\<rparr>),
                (fs1, \<lparr>req_method = js ''HEAD'', url = js ''/blog/docs''\<rparr>),
                (fs1, \<lparr>req_method = js ''PUT'', url = js ''/blog/x''\<rparr>)]"
  have len: "length (serve env0 ?srv ?reqs) = 3"
    by (simp add: listing_non_get_uncaught handle_server js_def Let_def)
  have le: "reqcount ?srv + length ?reqs \<le> 2 ^ 53" by simp
  have u: "[0..<3] = [0, 1, 2::nat]" "[999..<1002] = [999, 1000, 1001::nat]"
    by (simp_all add: upt_rec)
  from request_ids_sequential [OF le, of env0] show ?thesis
    unfolding len by (simp add: u padStart3_def digits.simps js_def)
qed

section \<open>The counter at its ceiling\<close>

lemma increment_funpow: "(increment ^^ k) 0 = min k (2 ^ 53)"
  by (induction k) (auto simp: increment_def)

lemma serve_replicate_nth:
  assumes "\<And>n. uncaught (handle e fs \<lparr>config = c, reqcount = n\<rparr> req) = None"
  shows "k < n \<Longrightarrow>
         serve e \<lparr>config = c, reqcount = m\<rparr> (replicate n (fs, req)) ! k =
         handle e fs \<lparr>config = c, reqcount = (increment ^^ k) m\<rparr> req"
proof (induction n arbitrary: k m)
  case 0
  then show ?case by simp
next
  case (Suc n)
  show ?case
  proof (cases k)
    case 0
    then show ?thesis by (simp add: assms Let_def)
  next
    case (Suc j)
    with Suc.prems have "j < n" by simp
    from Suc.IH [OF this, of "increment m"]
    show ?thesis
      unfolding Suc by (simp add: assms Let_def handle_server funpow_swap1)
  qed
qed

text \<open>
  Claim C9 as stated fails: the counter is a double, and \<open>2^53 + 1\<close> is rounded to \<open>2^53\<close>.
  Of \<open>2^53 + 2\<close> requests handled by a new instance, the last two receive the same id.
\<close>

theorem request_ids_repeat_counterexample:
  "ident (serve env0 \<lparr>config = listing_config, reqcount = 0\<rparr>
            (replicate (2 ^ 53 + 2) (fs1, \<lparr>req_method = js ''POST'', url = js ''/blog/''\<rparr>))
          ! (2 ^ 53)) = js ''9007199254740992'' \<and>
   ident (serve env0 \<lparr>config = listing_config, reqcount = 0\<rparr>
            (replicate (2 ^ 53 + 2) (fs1, \<lparr>req_method = js ''POST'', url = js ''/blog/''\<rparr>))
          ! (2 ^ 53 + 1)) = js ''9007199254740992''"
proof -
  let ?req = "\<lparr>req_method = js ''POST'', url = js ''/blog/''\<rparr>"
  have u: "\<And>n. uncaught (handle env0 fs1 \<lparr>config = listing_config, reqcount = n\<rparr> ?req) = None"
    by (rule listing_non_get_uncaught) (simp add: js_def)
  have d: "padStart3 (digits (2 ^ 53)) = js ''9007199254740992''"
    by (simp add: padStart3_def digits.simps js_def)
  have a: "(2::nat) ^ 53 < 2 ^ 53 + 2" "(2::nat) ^ 53 + 1 < 2 ^ 53 + 2" by simp_all
  have m: "min ((2::nat) ^ 53) (2 ^ 53) = 2 ^ 53" "min ((2::nat) ^ 53 + 1) (2 ^ 53) = 2 ^ 53"
    by simp_all
  show ?thesis
    unfolding serve_replicate_nth [of env0 fs1 listing_config ?req, OF u a(1)]
              serve_replicate_nth [of env0 fs1 listing_config ?req, OF u a(2)]
    by (simp only: handle_ident rxfs.simps increment_funpow m d)
qed


end
